theory Spec2Isabelle
  imports Main
begin

section \<open>Query types (src/src/data-fetching.ts, lines 10-91)\<close>

text \<open>
  Payloads produced by a query function are opaque to the client, so they are strings
  here. A field typed \<^verbatim>\<open>TData | undefined\<close> is an option, with \<open>None\<close> for
  \<^verbatim>\<open>undefined\<close>; a field typed \<^verbatim>\<open>TError | null\<close> is an option, with \<open>None\<close>
  for \<^verbatim>\<open>null\<close>.
\<close>

type_synonym jsdata = string

text \<open>
  A query key is a string or an array; array elements are restricted to strings, which
  is what every key of the repository's examples is made of.
\<close>

datatype QueryKey = KeyString string | KeyArray "string list"

text \<open>
  What a promise can reject with: an \<^verbatim>\<open>Error\<close> object, with its \<^verbatim>\<open>name\<close> and
  \<^verbatim>\<open>message\<close>, or some other (non-null) value.
\<close>

datatype thrown = ErrorObj string string | NonError string

datatype QueryStatus = Pending | Error | Success

datatype FetchStatus = Fetching | Paused | Idle

record QueryState =
  data :: "jsdata option"
  dataUpdatedAt :: int
  error :: "thrown option"
  errorUpdatedAt :: int
  failureCount :: nat
  failureReason :: "thrown option"
  fetchStatus :: FetchStatus
  isInvalidated :: bool
  status :: QueryStatus

datatype RetryOpt = RetryCount int | RetryFlag bool | RetryFn "nat \<Rightarrow> thrown \<Rightarrow> bool"

datatype RetryDelayOpt = DelayMs int | DelayFn "nat \<Rightarrow> thrown \<Rightarrow> int"

text \<open>
  The options the client reads. An optional field is an option (\<open>None\<close>: not given);
  \<open>refetchInterval\<close> is \<open>None\<close> also for \<^verbatim>\<open>false\<close>. The query function is the
  environment: the client only calls it and awaits its promise, so each call is logged
  and each settlement of its promise is an event. The three callbacks are user code run
  later by \<^verbatim>\<open>defer\<close>; the options say whether each is given.
\<close>

record QueryOptions =
  queryKey :: QueryKey
  enabled :: "bool option"
  retry :: "RetryOpt option"
  retryDelay :: "RetryDelayOpt option"
  staleTime :: "int option"
  gcTime :: "int option"
  refetchInterval :: "int option"
  select :: "(jsdata \<Rightarrow> jsdata) option"
  onSuccess :: bool
  onError :: bool
  onSettled :: bool

text \<open>
  The result handed to an observer: the state's fields (with \<open>data\<close> transformed) and
  the derived flags. Its \<^verbatim>\<open>refetch\<close> closure is a call of \<^verbatim>\<open>fetchQuery\<close> by the
  user and is not a field here.
\<close>

record UseQueryResult = QueryState +
  isLoading :: bool
  isPending :: bool
  isSuccess :: bool
  isError :: bool
  isFetching :: bool
  isPlaceholderData :: bool
  isRefetching :: bool
  isStale :: bool

section \<open>Query client state (lines 146-203)\<close>

text \<open>
  A cache entry. Observers are kept in insertion order, as a JavaScript \<^verbatim>\<open>Set\<close>
  iterates them, each with the identity the model gives it and its options. The abort
  controller and the two timers are identities into tables of the client. The timer made
  by \<^verbatim>\<open>setInterval\<close> is the field \<open>refetchTimer\<close> (\<^verbatim>\<open>entry.refetchInterval\<close> in
  the source, a name the options already use).
\<close>

record QueryCacheEntry =
  state :: QueryState
  observers :: "(nat \<times> QueryOptions) list"
  abortController :: "nat option"
  gcTimeout :: "nat option"
  refetchTimer :: "nat option"

text \<open>Who called \<^verbatim>\<open>fetchQuery\<close>, that is, who holds the promise it returns.\<close>

datatype Caller = Direct | FromSubscribe | FromInterval

datatype Phase = AwaitFn | AwaitDelay int

text \<open>
  A call of \<^verbatim>\<open>fetchQuery\<close> suspended at an \<^verbatim>\<open>await\<close>: the entry object and the
  options its closure holds, the signal passed to \<^verbatim>\<open>executeWithRetry\<close>, the loop's
  \<^verbatim>\<open>attempt\<close> counter and which promise the loop waits for.
\<close>

record FetchTask =
  taskEntry :: nat
  taskOptions :: QueryOptions
  taskSignal :: nat
  attempt :: nat
  phase :: Phase
  caller :: Caller

text \<open>
  The closures given to \<^verbatim>\<open>setTimeout\<close> and \<^verbatim>\<open>setInterval\<close>: the garbage
  collection armed by \<^verbatim>\<open>fetchQuery\<close> (deletes only when the entry has no observer),
  the one armed by the unsubscribe function (deletes unconditionally), and the refetch
  interval.
\<close>

datatype Timer = GcAfterFetch nat QueryKey | GcAfterUnsubscribe QueryKey | RefetchEvery QueryOptions

text \<open>Callbacks handed to \<^verbatim>\<open>defer\<close>, by the task that handed them.\<close>

datatype Deferred = OnSuccess nat "jsdata option" | OnError nat thrown | OnSettled nat nat

text \<open>How the promise of a \<^verbatim>\<open>fetchQuery\<close> call ended (lines 346, 350 and 370).\<close>

datatype Outcome = Returned "jsdata option" | ReturnedCached "jsdata option" | Threw thrown

text \<open>
  The client. Entry objects live in \<open>heap\<close>, addressed by number, because closures of
  suspended calls and of timers keep an entry object also after the cache dropped it.
  \<open>cache\<close> is the store of the \<^verbatim>\<open>lru-cache\<close> package: serialized keys with the
  entry address and the time the key was set, most recently used first; \<open>maxSize\<close> and
  \<open>ttl\<close> are the two settings the constructor gives it (lines 182-188), \<open>0\<close> for
  none. \<open>aborted\<close> holds the flag of every abort signal. The remaining fields record
  what the client did to its environment: \<open>calls\<close> the invocations of query functions
  (task, key, attempt), \<open>notifications\<close> the observer callbacks, \<open>deferred\<close> the
  deferred callbacks, \<open>outcomes\<close> the promises of finished \<^verbatim>\<open>fetchQuery\<close> calls and
  \<open>unhandled\<close> those rejected promises that no caller holds.
\<close>

record QueryClient =
  maxSize :: nat
  ttl :: nat
  cache :: "(string \<times> nat \<times> int) list"
  heap :: "nat \<Rightarrow> QueryCacheEntry"
  nextEntry :: nat
  aborted :: "nat \<Rightarrow> bool"
  nextSignal :: nat
  tasks :: "nat \<Rightarrow> FetchTask option"
  nextTask :: nat
  timers :: "nat \<Rightarrow> Timer option"
  nextTimer :: nat
  nextObserver :: nat
  calls :: "(nat \<times> QueryKey \<times> nat) list"
  notifications :: "(nat \<times> UseQueryResult) list"
  deferred :: "Deferred list"
  outcomes :: "(nat \<times> Outcome) list"
  unhandled :: "(nat \<times> thrown) list"

definition initialState :: QueryState where
  "initialState =
     \<lparr>data = None, dataUpdatedAt = 0, error = None, errorUpdatedAt = 0, failureCount = 0,
      failureReason = None, fetchStatus = Idle, isInvalidated = False, status = Pending\<rparr>"

definition newEntry :: QueryCacheEntry where
  "newEntry =
     \<lparr>state = initialState, observers = [], abortController = None, gcTimeout = None,
      refetchTimer = None\<rparr>"

text \<open>
  The constructor, for the settings \<^verbatim>\<open>config.cache.maxSize\<close> and
  \<^verbatim>\<open>config.cache.ttl\<close>, and the client made with no configuration (1000 entries,
  five minutes).
\<close>

definition createClient :: "nat \<Rightarrow> nat \<Rightarrow> QueryClient" where
  "createClient mx t =
     \<lparr>maxSize = mx, ttl = t, cache = [], heap = (\<lambda>_. newEntry), nextEntry = 0,
      aborted = (\<lambda>_. False), nextSignal = 0, tasks = (\<lambda>_. None), nextTask = 0,
      timers = (\<lambda>_. None), nextTimer = 0, nextObserver = 0, calls = [], notifications = [],
      deferred = [], outcomes = [], unhandled = []\<rparr>"

definition newClient :: QueryClient where
  "newClient = createClient 1000 (5 * 60 * 1000)"

subsection \<open>The stored list\<close>

text \<open>
  Looking a key up in the stored list without any effect, removing a key from it, and
  the test the store applies to a key set at \<open>start\<close> under the time-to-live \<open>t\<close>.
  One clock serves the store and \<^verbatim>\<open>Date.now()\<close>.
\<close>

definition storeFind :: "(string \<times> nat \<times> int) list \<Rightarrow> string \<Rightarrow> (nat \<times> int) option" where
  "storeFind xs k = map_of xs k"

definition storeRemove :: "string \<Rightarrow> (string \<times> nat \<times> int) list \<Rightarrow> (string \<times> nat \<times> int) list" where
  "storeRemove k xs = filter (\<lambda>p. fst p \<noteq> k) xs"

definition ttlExpired :: "nat \<Rightarrow> int \<Rightarrow> int \<Rightarrow> bool" where
  "ttlExpired t start now = (t \<noteq> 0 \<and> now - start > int t)"

subsection \<open>Key serialization (lines 205-207)\<close>

text \<open>
  \<^verbatim>\<open>JSON.stringify\<close> on a string or an array of strings, for printable characters:
  the double quote (0x22) and the backslash (0x5C) are escaped with a backslash.
\<close>

definition jsonEscape :: "char \<Rightarrow> string" where
  "jsonEscape ch = (if ch = CHR 0x22 \<or> ch = CHR 0x5C then [CHR 0x5C, ch] else [ch])"

definition jsonString :: "string \<Rightarrow> string" where
  "jsonString s = CHR 0x22 # concat (map jsonEscape s) @ [CHR 0x22]"

fun commaJoin :: "string list \<Rightarrow> string" where
  "commaJoin [] = []"
| "commaJoin [x] = x"
| "commaJoin (x # y # ys) = x @ '','' @ commaJoin (y # ys)"

fun getQueryKey :: "QueryKey \<Rightarrow> string" where
  "getQueryKey (KeyString s) = jsonString s"
| "getQueryKey (KeyArray xs) = ''['' @ commaJoin (map jsonString xs) @ '']''"

subsection \<open>Building results and notifying observers (lines 238-284)\<close>

definition isStale_fn :: "int \<Rightarrow> QueryState \<Rightarrow> QueryOptions \<Rightarrow> bool" where
  "isStale_fn now st opts =
     (now - dataUpdatedAt st > (case staleTime opts of None \<Rightarrow> 0 | Some t \<Rightarrow> t))"

definition buildQueryResult :: "int \<Rightarrow> QueryState \<Rightarrow> QueryOptions \<Rightarrow> UseQueryResult" where
  "buildQueryResult now st opts =
     (let transformedData =
            (case (select opts, data st) of
               (Some f, Some d) \<Rightarrow> Some (f d)
             | _ \<Rightarrow> data st);
          loading = (status st = Pending \<and> fetchStatus st = Fetching);
          fetchingNow = (fetchStatus st = Fetching)
      in \<lparr>data = transformedData, dataUpdatedAt = dataUpdatedAt st, error = error st,
          errorUpdatedAt = errorUpdatedAt st, failureCount = failureCount st,
          failureReason = failureReason st, fetchStatus = fetchStatus st,
          isInvalidated = isInvalidated st, status = status st,
          isLoading = loading,
          isPending = (status st = Pending),
          isSuccess = (status st = Success),
          isError = (status st = Error),
          isFetching = fetchingNow,
          isPlaceholderData = False,
          isRefetching = (fetchingNow \<and> \<not> loading),
          isStale = isStale_fn now st opts\<rparr>)"

definition notifyObservers :: "int \<Rightarrow> nat \<Rightarrow> QueryClient \<Rightarrow> QueryClient" where
  "notifyObservers now a c =
     c\<lparr>notifications := notifications c @
          map (\<lambda>ob. (fst ob, buildQueryResult now (state (heap c a)) (snd ob)))
              (observers (heap c a))\<rparr>"

subsection \<open>Entries, signals and timers (lines 193-236)\<close>

definition updateEntry :: "nat \<Rightarrow> (QueryCacheEntry \<Rightarrow> QueryCacheEntry) \<Rightarrow> QueryClient \<Rightarrow> QueryClient" where
  "updateEntry a f c = c\<lparr>heap := (heap c)(a := f (heap c a))\<rparr>"

definition abortSignal :: "nat \<Rightarrow> QueryClient \<Rightarrow> QueryClient" where
  "abortSignal s c = c\<lparr>aborted := (aborted c)(s := True)\<rparr>"

definition clearTimer :: "nat \<Rightarrow> QueryClient \<Rightarrow> QueryClient" where
  "clearTimer t c = c\<lparr>timers := (timers c)(t := None)\<rparr>"

definition setTimer :: "Timer \<Rightarrow> QueryClient \<Rightarrow> QueryClient" where
  "setTimer tm c = c\<lparr>timers := (timers c)(nextTimer c \<mapsto> tm), nextTimer := Suc (nextTimer c)\<rparr>"

definition cleanupQuery :: "nat \<Rightarrow> QueryClient \<Rightarrow> QueryClient" where
  "cleanupQuery a c =
     (let e = heap c a;
          c1 = (case abortController e of None \<Rightarrow> c | Some s \<Rightarrow> abortSignal s c);
          c2 = (case gcTimeout e of None \<Rightarrow> c1 | Some t \<Rightarrow> clearTimer t c1)
      in (case refetchTimer e of None \<Rightarrow> c2 | Some t \<Rightarrow> clearTimer t c2))"

text \<open>
  The operations of \<^verbatim>\<open>LRUCache\<close> that the client uses, as the \<^verbatim>\<open>lru-cache\<close>
  package documents them for a store made with \<^verbatim>\<open>max\<close>, \<^verbatim>\<open>ttl\<close> and
  \<^verbatim>\<open>dispose\<close> and its other options at their defaults. Whatever the store drops it
  hands to the \<^verbatim>\<open>dispose\<close> hook, which is \<open>cleanupQuery\<close>.

  \<^verbatim>\<open>delete\<close> drops a key, expired or not. \<^verbatim>\<open>get\<close> on a key whose time-to-live
  has passed deletes it and returns \<^verbatim>\<open>undefined\<close>; on any other stored key it makes
  the key the most recently used and returns its value, without renewing its
  time-to-live. \<^verbatim>\<open>set\<close> on a new key first drops the least recently used key when
  the store is full; on a stored key it replaces the value, disposing of the old one.
  \<^verbatim>\<open>values\<close> yields the values that have not expired, most recently used first, and
  drops nothing. \<^verbatim>\<open>clear\<close> drops everything.
\<close>

definition cacheDelete :: "string \<Rightarrow> QueryClient \<Rightarrow> QueryClient" where
  "cacheDelete k c =
     (case storeFind (cache c) k of
        None \<Rightarrow> c
      | Some (a, start) \<Rightarrow> cleanupQuery a (c\<lparr>cache := storeRemove k (cache c)\<rparr>))"

definition cacheGet :: "string \<Rightarrow> int \<Rightarrow> QueryClient \<Rightarrow> nat option \<times> QueryClient" where
  "cacheGet k now c =
     (case storeFind (cache c) k of
        None \<Rightarrow> (None, c)
      | Some (a, start) \<Rightarrow>
          (if ttlExpired (ttl c) start now then (None, cacheDelete k c)
           else (Some a, c\<lparr>cache := (k, a, start) # storeRemove k (cache c)\<rparr>)))"

definition cacheEvict :: "QueryClient \<Rightarrow> QueryClient" where
  "cacheEvict c =
     (case rev (cache c) of
        [] \<Rightarrow> c
      | (k, a, start) # older \<Rightarrow> cleanupQuery a (c\<lparr>cache := butlast (cache c)\<rparr>))"

definition cacheSet :: "string \<Rightarrow> nat \<Rightarrow> int \<Rightarrow> QueryClient \<Rightarrow> QueryClient" where
  "cacheSet k a now c =
     (case storeFind (cache c) k of
        Some (old, start) \<Rightarrow>
          (if old = a then c\<lparr>cache := (k, a, now) # storeRemove k (cache c)\<rparr>
           else cleanupQuery old (c\<lparr>cache := (k, a, now) # storeRemove k (cache c)\<rparr>))
      | None \<Rightarrow>
          (if maxSize c \<noteq> 0 \<and> maxSize c \<le> length (cache c)
           then (cacheEvict c)\<lparr>cache := (k, a, now) # cache (cacheEvict c)\<rparr>
           else c\<lparr>cache := (k, a, now) # cache c\<rparr>))"

definition cacheValues :: "int \<Rightarrow> QueryClient \<Rightarrow> nat list" where
  "cacheValues now c =
     map (\<lambda>p. fst (snd p)) (filter (\<lambda>p. \<not> ttlExpired (ttl c) (snd (snd p)) now) (cache c))"

definition cacheClear :: "QueryClient \<Rightarrow> QueryClient" where
  "cacheClear c = fold (\<lambda>p. cleanupQuery (fst (snd p))) (cache c) (c\<lparr>cache := []\<rparr>)"

definition getQueryEntry :: "QueryKey \<Rightarrow> int \<Rightarrow> QueryClient \<Rightarrow> nat \<times> QueryClient" where
  "getQueryEntry k now c =
     (case cacheGet (getQueryKey k) now c of
        (Some a, c1) \<Rightarrow> (a, c1)
      | (None, c1) \<Rightarrow>
          (nextEntry c1,
           cacheSet (getQueryKey k) (nextEntry c1) now
             (c1\<lparr>heap := (heap c1)(nextEntry c1 := newEntry), nextEntry := Suc (nextEntry c1)\<rparr>)))"

subsection \<open>fetchQuery and executeWithRetry (lines 286-415)\<close>

definition isAbortError :: "thrown \<Rightarrow> bool" where
  "isAbortError err = (case err of ErrorObj nm msg \<Rightarrow> nm = ''AbortError'' | NonError v \<Rightarrow> False)"

definition shouldRetry :: "RetryOpt \<Rightarrow> nat \<Rightarrow> thrown \<Rightarrow> bool" where
  "shouldRetry r n err =
     (case r of
        RetryFn f \<Rightarrow> f n err
      | RetryFlag b \<Rightarrow> b \<and> n < 3
      | RetryCount k \<Rightarrow> int n < k)"

definition retryDelayMs :: "RetryDelayOpt option \<Rightarrow> nat \<Rightarrow> thrown \<Rightarrow> int" where
  "retryDelayMs rd n err =
     (case rd of
        Some (DelayFn f) \<Rightarrow> f n err
      | Some (DelayMs d) \<Rightarrow> d
      | None \<Rightarrow> min (1000 * 2 ^ n) 30000)"

text \<open>
  The synchronous part of \<^verbatim>\<open>fetchQuery\<close>, up to the first \<^verbatim>\<open>await\<close> inside
  \<^verbatim>\<open>executeWithRetry\<close>: the entry is found or made, a controller in flight is
  aborted and replaced, observers see \<^verbatim>\<open>fetchStatus = 'fetching'\<close>, and the query
  function is called for attempt 0. The result is the task that stands for the returned
  promise.
\<close>

definition fetchQuery :: "QueryOptions \<Rightarrow> Caller \<Rightarrow> int \<Rightarrow> QueryClient \<Rightarrow> nat \<times> QueryClient" where
  "fetchQuery opts who now c =
     (let (a, c1) = getQueryEntry (queryKey opts) now c;
          c2 = (case abortController (heap c1 a) of None \<Rightarrow> c1 | Some s \<Rightarrow> abortSignal s c1);
          sig = nextSignal c2;
          c3 = updateEntry a
                 (\<lambda>e. e\<lparr>abortController := Some sig, state := (state e)\<lparr>fetchStatus := Fetching\<rparr>\<rparr>)
                 (c2\<lparr>nextSignal := Suc sig\<rparr>);
          c4 = notifyObservers now a c3;
          t = nextTask c4
      in (t, c4\<lparr>tasks := (tasks c4)(t \<mapsto>
                    \<lparr>taskEntry = a, taskOptions = opts, taskSignal = sig, attempt = 0,
                     phase = AwaitFn, caller = who\<rparr>),
                 nextTask := Suc t,
                 calls := calls c4 @ [(t, queryKey opts, 0)]\<rparr>))"

text \<open>
  The \<^verbatim>\<open>finally\<close> block and the end of the call: \<^verbatim>\<open>onSettled\<close> is deferred (its
  closure reads the entry when it runs, so the entry's address is recorded), and the
  promise settles. A rejected promise that only \<^verbatim>\<open>subscribeToQuery\<close> or the interval
  closure received has no handler.
\<close>

definition finishTask :: "nat \<Rightarrow> FetchTask \<Rightarrow> Outcome \<Rightarrow> QueryClient \<Rightarrow> QueryClient" where
  "finishTask t task out c =
     (let c1 = (if onSettled (taskOptions task)
                then c\<lparr>deferred := deferred c @ [OnSettled t (taskEntry task)]\<rparr> else c);
          c2 = c1\<lparr>tasks := (tasks c1)(t := None), outcomes := outcomes c1 @ [(t, out)]\<rparr>
      in (case out of
            Threw err \<Rightarrow>
              (if caller task = Direct then c2 else c2\<lparr>unhandled := unhandled c2 @ [(t, err)]\<rparr>)
          | Returned d \<Rightarrow> c2
          | ReturnedCached d \<Rightarrow> c2))"

text \<open>Lines 313-346: \<^verbatim>\<open>executeWithRetry\<close> returned \<open>d\<close>.\<close>

definition fetchResolved :: "nat \<Rightarrow> FetchTask \<Rightarrow> jsdata option \<Rightarrow> int \<Rightarrow> QueryClient \<Rightarrow> QueryClient" where
  "fetchResolved t task d now c =
     (let a = taskEntry task;
          opts = taskOptions task;
          c1 = updateEntry a
                 (\<lambda>e. e\<lparr>state := (state e)\<lparr>data := d, dataUpdatedAt := now, error := None,
                            errorUpdatedAt := 0, failureCount := 0, failureReason := None,
                            fetchStatus := Idle, status := Success\<rparr>\<rparr>) c;
          c2 = (case refetchInterval opts of
                  None \<Rightarrow> c1
                | Some n \<Rightarrow>
                    (if n > 0
                     then updateEntry a (\<lambda>e. e\<lparr>refetchTimer := Some (nextTimer c1)\<rparr>)
                            (setTimer (RefetchEvery opts) c1)
                     else c1));
          gc = (case gcTime opts of None \<Rightarrow> 5 * 60 * 1000 | Some g \<Rightarrow> g);
          c3 = (if gc > 0
                then updateEntry a (\<lambda>e. e\<lparr>gcTimeout := Some (nextTimer c2)\<rparr>)
                       (setTimer (GcAfterFetch a (queryKey opts)) c2)
                else c2);
          c4 = notifyObservers now a c3;
          c5 = (if onSuccess opts then c4\<lparr>deferred := deferred c4 @ [OnSuccess t d]\<rparr> else c4)
      in finishTask t task (Returned d) c5)"

text \<open>Lines 348-370: \<^verbatim>\<open>executeWithRetry\<close> threw \<open>err\<close>.\<close>

definition fetchRejected :: "nat \<Rightarrow> FetchTask \<Rightarrow> thrown \<Rightarrow> int \<Rightarrow> QueryClient \<Rightarrow> QueryClient" where
  "fetchRejected t task err now c =
     (let a = taskEntry task;
          opts = taskOptions task
      in if isAbortError err
         then finishTask t task (ReturnedCached (data (state (heap c a)))) c
         else
           (let c1 = updateEntry a
                       (\<lambda>e. e\<lparr>state := (state e)\<lparr>error := Some err, errorUpdatedAt := now,
                                  failureCount := failureCount (state e) + 1,
                                  failureReason := Some err, fetchStatus := Idle,
                                  status := Error\<rparr>\<rparr>) c;
                c2 = notifyObservers now a c1;
                c3 = (if onError opts then c2\<lparr>deferred := deferred c2 @ [OnError t err]\<rparr> else c2)
            in finishTask t task (Threw err) c3))"

text \<open>What the promise of one query function call settles with.\<close>

datatype Settlement = Resolved "jsdata option" | Rejected thrown

text \<open>
  The body of the loop of \<^verbatim>\<open>executeWithRetry\<close> after \<^verbatim>\<open>await fn()\<close>: a value is
  returned to \<^verbatim>\<open>fetchQuery\<close>; a rejection is rethrown when the signal is aborted or
  the retry policy says no, and otherwise the loop sleeps for the retry delay.
\<close>

definition queryFnSettled :: "nat \<Rightarrow> Settlement \<Rightarrow> int \<Rightarrow> QueryClient \<Rightarrow> QueryClient" where
  "queryFnSettled t res now c =
     (case tasks c t of
        None \<Rightarrow> c
      | Some task \<Rightarrow>
          (case phase task of
             AwaitDelay ms \<Rightarrow> c
           | AwaitFn \<Rightarrow>
               (case res of
                  Resolved d \<Rightarrow> fetchResolved t task d now c
                | Rejected err \<Rightarrow>
                    (if aborted c (taskSignal task) then fetchRejected t task err now c
                     else if \<not> shouldRetry
                                 (case retry (taskOptions task) of None \<Rightarrow> RetryCount 3 | Some r \<Rightarrow> r)
                                 (attempt task) err
                     then fetchRejected t task err now c
                     else c\<lparr>tasks := (tasks c)(t \<mapsto>
                              task\<lparr>phase := AwaitDelay
                                     (retryDelayMs (retryDelay (taskOptions task)) (attempt task) err)\<rparr>)\<rparr>))))"

text \<open>The retry delay elapsed: \<^verbatim>\<open>attempt++\<close> and the query function is called again.\<close>

definition retryDelayElapsed :: "nat \<Rightarrow> QueryClient \<Rightarrow> QueryClient" where
  "retryDelayElapsed t c =
     (case tasks c t of
        None \<Rightarrow> c
      | Some task \<Rightarrow>
          (case phase task of
             AwaitFn \<Rightarrow> c
           | AwaitDelay ms \<Rightarrow>
               c\<lparr>tasks := (tasks c)(t \<mapsto> task\<lparr>attempt := Suc (attempt task), phase := AwaitFn\<rparr>),
                 calls := calls c @ [(t, queryKey (taskOptions task), Suc (attempt task))]\<rparr>))"

subsection \<open>Subscriptions (lines 417-447)\<close>

text \<open>
  \<^verbatim>\<open>subscribeToQuery\<close> returns the unsubscribe closure, which holds the entry object,
  the observer and the options: the result is the pair of entry address and observer
  identity, and \<open>unsubscribe\<close> takes that pair and the options of the subscription.
  The promise of the \<^verbatim>\<open>fetchQuery\<close> call is dropped.
\<close>

definition subscribeToQuery :: "QueryOptions \<Rightarrow> int \<Rightarrow> QueryClient \<Rightarrow> (nat \<times> nat) \<times> QueryClient" where
  "subscribeToQuery opts now c =
     (let (a, c1) = getQueryEntry (queryKey opts) now c;
          ob = nextObserver c1;
          c2 = updateEntry a (\<lambda>e. e\<lparr>observers := observers e @ [(ob, opts)]\<rparr>)
                 (c1\<lparr>nextObserver := Suc ob\<rparr>);
          c3 = (case gcTimeout (heap c2 a) of
                  None \<Rightarrow> c2
                | Some tm \<Rightarrow> updateEntry a (\<lambda>e. e\<lparr>gcTimeout := None\<rparr>) (clearTimer tm c2));
          c4 = (if enabled opts \<noteq> Some False \<and> status (state (heap c3 a)) = Pending
                then snd (fetchQuery opts FromSubscribe now c3)
                else c3)
      in ((a, ob), c4))"

definition unsubscribe :: "nat \<times> nat \<Rightarrow> QueryOptions \<Rightarrow> QueryClient \<Rightarrow> QueryClient" where
  "unsubscribe h opts c =
     (let a = fst h;
          c1 = updateEntry a (\<lambda>e. e\<lparr>observers := filter (\<lambda>p. fst p \<noteq> snd h) (observers e)\<rparr>) c;
          gc = (case gcTime opts of None \<Rightarrow> 5 * 60 * 1000 | Some g \<Rightarrow> g)
      in if observers (heap c1 a) = [] \<and> gc > 0
         then updateEntry a (\<lambda>e. e\<lparr>gcTimeout := Some (nextTimer c1)\<rparr>)
                (setTimer (GcAfterUnsubscribe (queryKey opts)) c1)
         else c1)"

subsection \<open>Invalidation, direct writes and reads, removal (lines 449-496)\<close>

text \<open>\<^verbatim>\<open>if (queryKey)\<close>: the empty string is falsy, every array is truthy.\<close>

definition keyTruthy :: "QueryKey \<Rightarrow> bool" where
  "keyTruthy k = (case k of KeyString s \<Rightarrow> s \<noteq> [] | KeyArray xs \<Rightarrow> True)"

definition invalidateEntry :: "int \<Rightarrow> nat \<Rightarrow> QueryClient \<Rightarrow> QueryClient" where
  "invalidateEntry now a c =
     notifyObservers now a
       (updateEntry a (\<lambda>e. e\<lparr>state := (state e)\<lparr>isInvalidated := True\<rparr>\<rparr>) c)"

definition invalidateAll :: "int \<Rightarrow> QueryClient \<Rightarrow> QueryClient" where
  "invalidateAll now c = fold (invalidateEntry now) (cacheValues now c) c"

definition invalidateQueries :: "QueryKey option \<Rightarrow> int \<Rightarrow> QueryClient \<Rightarrow> QueryClient" where
  "invalidateQueries ko now c =
     (case ko of
        None \<Rightarrow> invalidateAll now c
      | Some k \<Rightarrow>
          (if keyTruthy k
           then (case cacheGet (getQueryKey k) now c of
                   (None, c1) \<Rightarrow> c1
                 | (Some a, c1) \<Rightarrow> invalidateEntry now a c1)
           else invalidateAll now c))"

definition setQueryData :: "QueryKey \<Rightarrow> jsdata option \<Rightarrow> int \<Rightarrow> QueryClient \<Rightarrow> QueryClient" where
  "setQueryData k d now c =
     (let (a, c1) = getQueryEntry k now c
      in notifyObservers now a
           (updateEntry a
              (\<lambda>e. e\<lparr>state := (state e)\<lparr>data := d, dataUpdatedAt := now, status := Success\<rparr>\<rparr>) c1))"

text \<open>
  \<^verbatim>\<open>getQueryData\<close> calls \<^verbatim>\<open>cache.get\<close>, so it returns its result together with
  the client that call leaves behind.
\<close>

definition getQueryData :: "QueryKey \<Rightarrow> int \<Rightarrow> QueryClient \<Rightarrow> jsdata option \<times> QueryClient" where
  "getQueryData k now c =
     (case cacheGet (getQueryKey k) now c of
        (None, c1) \<Rightarrow> (None, c1)
      | (Some a, c1) \<Rightarrow> (data (state (heap c1 a)), c1))"

definition removeQueries :: "QueryKey option \<Rightarrow> int \<Rightarrow> QueryClient \<Rightarrow> QueryClient" where
  "removeQueries ko now c =
     (case ko of
        None \<Rightarrow> cacheClear c
      | Some k \<Rightarrow>
          (if keyTruthy k
           then (case cacheGet (getQueryKey k) now c of
                   (None, c1) \<Rightarrow> c1
                 | (Some a, c1) \<Rightarrow> cacheDelete (getQueryKey k) (cleanupQuery a c1))
           else cacheClear c))"

definition clear :: "QueryClient \<Rightarrow> QueryClient" where
  "clear c = cacheClear c"

subsection \<open>Timers firing\<close>

text \<open>
  A timeout fires once and is gone; an interval stays armed. The closures are those of
  lines 326-328, 333-337 and 441-443.
\<close>

definition fireTimer :: "nat \<Rightarrow> int \<Rightarrow> QueryClient \<Rightarrow> QueryClient" where
  "fireTimer tm now c =
     (case timers c tm of
        None \<Rightarrow> c
      | Some (GcAfterFetch a k) \<Rightarrow>
          (if observers (heap c a) = []
           then cacheDelete (getQueryKey k) (clearTimer tm c)
           else clearTimer tm c)
      | Some (GcAfterUnsubscribe k) \<Rightarrow> cacheDelete (getQueryKey k) (clearTimer tm c)
      | Some (RefetchEvery opts) \<Rightarrow> snd (fetchQuery opts FromInterval now c))"

subsection \<open>Observations used to state properties\<close>

text \<open>
  The state of the entry stored under a key, if there is one, expired or not; whether
  the key is stored and its time-to-live has passed; and the state of the entry that the
  store would return for the key at a given time.
\<close>

definition entryState :: "QueryKey \<Rightarrow> QueryClient \<Rightarrow> QueryState option" where
  "entryState k c =
     (case storeFind (cache c) (getQueryKey k) of
        None \<Rightarrow> None
      | Some (a, start) \<Rightarrow> Some (state (heap c a)))"

definition keyExpired :: "QueryKey \<Rightarrow> int \<Rightarrow> QueryClient \<Rightarrow> bool" where
  "keyExpired k now c =
     (case storeFind (cache c) (getQueryKey k) of
        None \<Rightarrow> False
      | Some (a, start) \<Rightarrow> ttlExpired (ttl c) start now)"

definition liveState :: "QueryKey \<Rightarrow> int \<Rightarrow> QueryClient \<Rightarrow> QueryState option" where
  "liveState k now c = (if keyExpired k now c then None else entryState k c)"

text \<open>The serialized keys the store holds.\<close>

definition storedKeys :: "QueryClient \<Rightarrow> string set" where
  "storedKeys c = fst ` set (cache c)"

text \<open>
  A query function that rejects every call with \<open>err\<close>, on the task \<open>t\<close>: each step
  settles the pending call with the rejection and lets the retry delay pass, until the
  promise of \<^verbatim>\<open>fetchQuery\<close> has settled. The first argument bounds the number of
  steps.
\<close>

fun rejectAll :: "nat \<Rightarrow> nat \<Rightarrow> thrown \<Rightarrow> int \<Rightarrow> QueryClient \<Rightarrow> QueryClient option" where
  "rejectAll 0 t err now c = (case tasks c t of None \<Rightarrow> Some c | Some task \<Rightarrow> None)"
| "rejectAll (Suc fuel) t err now c =
     (case tasks c t of
        None \<Rightarrow> Some c
      | Some task \<Rightarrow> rejectAll fuel t err now (retryDelayElapsed t (queryFnSettled t (Rejected err) now c)))"

section \<open>Example inputs and runs\<close>

text \<open>
  A key, two rejections and options with every callback given and defaults otherwise,
  for the retry policy \<open>r\<close> and the refetch interval \<open>iv\<close>.
\<close>

definition postsList :: QueryKey where
  "postsList = KeyArray [''posts'', ''list'']"

definition boom :: thrown where
  "boom = ErrorObj ''Error'' ''boom''"

definition abortError :: thrown where
  "abortError = ErrorObj ''AbortError'' ''The operation was aborted''"

definition queryOptions :: "QueryKey \<Rightarrow> RetryOpt option \<Rightarrow> int option \<Rightarrow> QueryOptions" where
  "queryOptions k r iv =
     \<lparr>queryKey = k, enabled = None, retry = r, retryDelay = None, staleTime = None,
      gcTime = None, refetchInterval = iv, select = None, onSuccess = True, onError = True,
      onSettled = True\<rparr>"

text \<open>
  A fresh client on which \<open>fetchQuery\<close> was called once (task 0, signal 0), and then
  a second time for the same key before the first call settled (task 1, signal 1).
\<close>

definition oneFetch :: QueryClient where
  "oneFetch = snd (fetchQuery (queryOptions postsList (Some (RetryCount 0)) None) Direct 0 newClient)"

definition twoFetches :: QueryClient where
  "twoFetches = snd (fetchQuery (queryOptions postsList (Some (RetryCount 0)) None) Direct 1 oneFetch)"

text \<open>The single fetch of \<open>oneFetch\<close> rejected at time 5.\<close>

definition failedFetch :: QueryClient where
  "failedFetch = queryFnSettled 0 (Rejected boom) 5 oneFetch"

text \<open>
  A fresh client with one subscriber to the key, whose subscription started task 0, and
  the same after that fetch resolved at time 5.
\<close>

definition subscribed :: QueryClient where
  "subscribed = snd (subscribeToQuery (queryOptions postsList (Some (RetryCount 0)) None) 0 newClient)"

definition loaded :: QueryClient where
  "loaded = queryFnSettled 0 (Resolved (Some ''v1'')) 5 subscribed"

text \<open>
  A fetch with a refetch interval of one second that resolved at time 5 (arming timer 0),
  and the same after the interval fired at time 1005 and started task 1.
\<close>

definition polled :: QueryClient where
  "polled = queryFnSettled 0 (Resolved (Some ''v1'')) 5
     (snd (fetchQuery (queryOptions postsList (Some (RetryCount 0)) (Some 1000)) Direct 0 newClient))"

definition polledAgain :: QueryClient where
  "polledAgain = fireTimer 0 1005 polled"

text \<open>
  The subscribed and loaded client refetched at time 10 with the default retry policy
  (task 1, signal 1); the first attempt rejected at time 20, so the retry loop sleeps;
  a third \<open>fetchQuery\<close> for the key at time 30 (task 2) superseded it during that
  sleep; then the sleep of task 1 ended.
\<close>

definition refetching :: QueryClient where
  "refetching = snd (fetchQuery (queryOptions postsList None None) Direct 10 loaded)"

definition backingOff :: QueryClient where
  "backingOff = queryFnSettled 1 (Rejected boom) 20 refetching"

definition supersededAsleep :: QueryClient where
  "supersededAsleep = snd (fetchQuery (queryOptions postsList None None) Direct 30 backingOff)"

definition calledAgain :: QueryClient where
  "calledAgain = retryDelayElapsed 1 supersededAsleep"

section \<open>Properties\<close>

subsection \<open>The stored list and the store's operations\<close>

lemma storeFind_None_iff: "storeFind xs k = None \<longleftrightarrow> k \<notin> fst ` set xs"
  by (simp add: storeFind_def map_of_eq_None_iff)

lemma storeFind_remove_same: "storeFind (storeRemove k xs) k = None"
  by (auto simp: storeFind_None_iff storeRemove_def)

lemma storeFind_remove_other: "k' \<noteq> k \<Longrightarrow> storeFind (storeRemove k xs) k' = storeFind xs k'"
  by (induction xs) (auto simp: storeFind_def storeRemove_def)

lemma storeRemove_keys: "fst ` set (storeRemove k xs) = fst ` set xs - {k}"
  by (auto simp: storeRemove_def)

lemma storeFind_touch:
  assumes "storeFind xs k = Some v"
  shows "storeFind ((k, v) # storeRemove k xs) k' = storeFind xs k'"
proof (cases "k' = k")
  case True
  then show ?thesis using assms by (simp add: storeFind_def)
next
  case False
  then have "storeFind (storeRemove k xs) k' = storeFind xs k'"
    by (rule storeFind_remove_other)
  with False show ?thesis by (simp add: storeFind_def)
qed

lemma storeFind_keys: "storeFind xs k = Some v \<Longrightarrow> k \<in> fst ` set xs"
  using storeFind_None_iff [of xs k] by auto

lemma storeRemove_absent: "k \<notin> fst ` set xs \<Longrightarrow> storeRemove k xs = xs"
  by (auto simp: storeRemove_def filter_id_conv)

text \<open>What the \<open>dispose\<close> hook leaves alone: everything but abort flags and timers.\<close>

lemma cleanupQuery_frame:
  "heap (cleanupQuery a c) = heap c \<and> cache (cleanupQuery a c) = cache c
   \<and> ttl (cleanupQuery a c) = ttl c \<and> maxSize (cleanupQuery a c) = maxSize c
   \<and> calls (cleanupQuery a c) = calls c \<and> tasks (cleanupQuery a c) = tasks c
   \<and> nextTask (cleanupQuery a c) = nextTask c \<and> nextSignal (cleanupQuery a c) = nextSignal c
   \<and> nextEntry (cleanupQuery a c) = nextEntry c \<and> nextObserver (cleanupQuery a c) = nextObserver c
   \<and> notifications (cleanupQuery a c) = notifications c \<and> deferred (cleanupQuery a c) = deferred c
   \<and> outcomes (cleanupQuery a c) = outcomes c \<and> unhandled (cleanupQuery a c) = unhandled c"
  by (simp add: cleanupQuery_def abortSignal_def clearTimer_def Let_def split: option.splits)

lemma cacheDelete_frame:
  "heap (cacheDelete k c) = heap c
   \<and> ttl (cacheDelete k c) = ttl c \<and> maxSize (cacheDelete k c) = maxSize c
   \<and> calls (cacheDelete k c) = calls c \<and> tasks (cacheDelete k c) = tasks c
   \<and> nextTask (cacheDelete k c) = nextTask c \<and> nextSignal (cacheDelete k c) = nextSignal c
   \<and> nextEntry (cacheDelete k c) = nextEntry c \<and> nextObserver (cacheDelete k c) = nextObserver c
   \<and> notifications (cacheDelete k c) = notifications c \<and> deferred (cacheDelete k c) = deferred c
   \<and> outcomes (cacheDelete k c) = outcomes c \<and> unhandled (cacheDelete k c) = unhandled c"
  by (simp add: cacheDelete_def cleanupQuery_frame split: option.splits prod.splits)

lemma cacheDelete_cache:
  "cache (cacheDelete k c) = storeRemove k (cache c)"
proof (cases "storeFind (cache c) k")
  case None
  then have "k \<notin> fst ` set (cache c)" by (simp add: storeFind_None_iff)
  then have "storeRemove k (cache c) = cache c"
    by (auto simp: storeRemove_def filter_id_conv)
  with None show ?thesis by (simp add: cacheDelete_def)
next
  case (Some v)
  then show ?thesis by (cases v) (simp add: cacheDelete_def cleanupQuery_frame)
qed

lemma cacheGet_frame:
  "heap (snd (cacheGet k now c)) = heap c
   \<and> ttl (snd (cacheGet k now c)) = ttl c \<and> maxSize (snd (cacheGet k now c)) = maxSize c
   \<and> calls (snd (cacheGet k now c)) = calls c \<and> tasks (snd (cacheGet k now c)) = tasks c
   \<and> nextTask (snd (cacheGet k now c)) = nextTask c
   \<and> nextSignal (snd (cacheGet k now c)) = nextSignal c
   \<and> nextEntry (snd (cacheGet k now c)) = nextEntry c
   \<and> nextObserver (snd (cacheGet k now c)) = nextObserver c
   \<and> notifications (snd (cacheGet k now c)) = notifications c
   \<and> deferred (snd (cacheGet k now c)) = deferred c
   \<and> outcomes (snd (cacheGet k now c)) = outcomes c
   \<and> unhandled (snd (cacheGet k now c)) = unhandled c"
  by (simp add: cacheGet_def cacheDelete_frame split: option.splits prod.splits)

lemma cacheGet_absent: "storeFind (cache c) k = None \<Longrightarrow> cacheGet k now c = (None, c)"
  by (simp add: cacheGet_def)

lemma cacheGet_expired:
  "storeFind (cache c) k = Some (a, start) \<Longrightarrow> ttlExpired (ttl c) start now
   \<Longrightarrow> cacheGet k now c = (None, cacheDelete k c)"
  by (simp add: cacheGet_def)

lemma cacheGet_live:
  "storeFind (cache c) k = Some (a, start) \<Longrightarrow> \<not> ttlExpired (ttl c) start now
   \<Longrightarrow> cacheGet k now c = (Some a, c\<lparr>cache := (k, a, start) # storeRemove k (cache c)\<rparr>)"
  by (simp add: cacheGet_def)

lemma cacheGet_cases:
  obtains (absent) "storeFind (cache c) k = None" "cacheGet k now c = (None, c)"
  | (expired) a start where "storeFind (cache c) k = Some (a, start)"
      "ttlExpired (ttl c) start now" "cacheGet k now c = (None, cacheDelete k c)"
  | (live) a start where "storeFind (cache c) k = Some (a, start)"
      "\<not> ttlExpired (ttl c) start now"
      "cacheGet k now c = (Some a, c\<lparr>cache := (k, a, start) # storeRemove k (cache c)\<rparr>)"
proof (cases "storeFind (cache c) k")
  case None
  then show ?thesis using absent cacheGet_absent by blast
next
  case (Some v)
  obtain a start where v: "v = (a, start)" by (cases v)
  show ?thesis
  proof (cases "ttlExpired (ttl c) start now")
    case True
    then show ?thesis using expired Some v cacheGet_expired by blast
  next
    case False
    then show ?thesis using live Some v cacheGet_live by blast
  qed
qed

lemma cacheGet_None_store:
  "fst (cacheGet k now c) = None \<Longrightarrow> storeFind (cache (snd (cacheGet k now c))) k = None"
  by (cases rule: cacheGet_cases [of c k now])
     (simp_all add: cacheDelete_cache storeFind_remove_same)

lemma cacheSet_frame:
  "heap (cacheSet k a now c) = heap c
   \<and> ttl (cacheSet k a now c) = ttl c \<and> maxSize (cacheSet k a now c) = maxSize c
   \<and> calls (cacheSet k a now c) = calls c \<and> tasks (cacheSet k a now c) = tasks c
   \<and> nextTask (cacheSet k a now c) = nextTask c \<and> nextSignal (cacheSet k a now c) = nextSignal c
   \<and> nextEntry (cacheSet k a now c) = nextEntry c
   \<and> nextObserver (cacheSet k a now c) = nextObserver c
   \<and> notifications (cacheSet k a now c) = notifications c
   \<and> deferred (cacheSet k a now c) = deferred c
   \<and> outcomes (cacheSet k a now c) = outcomes c
   \<and> unhandled (cacheSet k a now c) = unhandled c"
  by (simp add: cacheSet_def cacheEvict_def cleanupQuery_frame
      split: option.splits prod.splits list.splits)

lemma cacheSet_stored: "storeFind (cache (cacheSet k a now c)) k = Some (a, now)"
  by (simp add: cacheSet_def cacheEvict_def cleanupQuery_frame storeFind_def
      split: option.splits prod.splits list.splits)

lemma cacheEvict_keys: "fst ` set (cache (cacheEvict c)) \<subseteq> fst ` set (cache c)"
  by (auto simp: cacheEvict_def cleanupQuery_frame dest: in_set_butlastD
      split: list.splits prod.splits)

lemma cacheSet_head:
  assumes "storeFind (cache c) k = None"
  shows "\<exists>rest. cache (cacheSet k a now c) = (k, a, now) # rest \<and> k \<notin> fst ` set rest"
proof -
  have k: "k \<notin> fst ` set (cache c)" using assms by (simp add: storeFind_None_iff)
  then have "k \<notin> fst ` set (cache (cacheEvict c))" using cacheEvict_keys [of c] by blast
  with k assms show ?thesis by (simp add: cacheSet_def)
qed

lemma ttlExpired_now: "\<not> ttlExpired t now now"
  by (simp add: ttlExpired_def)

subsection \<open>Entry lookup\<close>

lemma getQueryEntry_found:
  "storeFind (cache c) (getQueryKey k) = Some (a, start) \<Longrightarrow> \<not> ttlExpired (ttl c) start now
   \<Longrightarrow> getQueryEntry k now c
       = (a, c\<lparr>cache := (getQueryKey k, a, start) # storeRemove (getQueryKey k) (cache c)\<rparr>)"
  by (simp add: getQueryEntry_def cacheGet_live)

lemma getQueryEntry_made:
  "fst (cacheGet (getQueryKey k) now c) = None \<Longrightarrow> c1 = snd (cacheGet (getQueryKey k) now c)
   \<Longrightarrow> getQueryEntry k now c
       = (nextEntry c,
          cacheSet (getQueryKey k) (nextEntry c) now
            (c1\<lparr>heap := (heap c)(nextEntry c := newEntry), nextEntry := Suc (nextEntry c)\<rparr>))"
  using cacheGet_frame [of "getQueryKey k" now c]
  by (cases "cacheGet (getQueryKey k) now c") (simp add: getQueryEntry_def)

lemma getQueryEntry_frame:
  "ttl (snd (getQueryEntry k now c)) = ttl c \<and> maxSize (snd (getQueryEntry k now c)) = maxSize c
   \<and> calls (snd (getQueryEntry k now c)) = calls c \<and> tasks (snd (getQueryEntry k now c)) = tasks c
   \<and> nextTask (snd (getQueryEntry k now c)) = nextTask c
   \<and> nextSignal (snd (getQueryEntry k now c)) = nextSignal c
   \<and> nextObserver (snd (getQueryEntry k now c)) = nextObserver c
   \<and> notifications (snd (getQueryEntry k now c)) = notifications c
   \<and> deferred (snd (getQueryEntry k now c)) = deferred c
   \<and> outcomes (snd (getQueryEntry k now c)) = outcomes c
   \<and> unhandled (snd (getQueryEntry k now c)) = unhandled c"
proof (cases "fst (cacheGet (getQueryKey k) now c)")
  case None
  show ?thesis
    using cacheGet_frame [of "getQueryKey k" now c]
    by (simp add: getQueryEntry_made [OF None refl] cacheSet_frame)
next
  case (Some a)
  then show ?thesis
    using cacheGet_frame [of "getQueryKey k" now c]
    by (cases "cacheGet (getQueryKey k) now c") (simp add: getQueryEntry_def)
qed

lemma getQueryEntry_stored:
  "\<exists>start. storeFind (cache (snd (getQueryEntry k now c))) (getQueryKey k)
              = Some (fst (getQueryEntry k now c), start)
           \<and> \<not> ttlExpired (ttl c) start now"
proof (cases rule: cacheGet_cases [of c "getQueryKey k" now])
  case absent
  then have "fst (cacheGet (getQueryKey k) now c) = None" by simp
  from getQueryEntry_made [OF this refl] show ?thesis
    by (auto simp: cacheSet_stored ttlExpired_now)
next
  case (expired a start)
  then have "fst (cacheGet (getQueryKey k) now c) = None" by simp
  from getQueryEntry_made [OF this refl] show ?thesis
    by (auto simp: cacheSet_stored ttlExpired_now)
next
  case (live a start)
  then show ?thesis
    by (auto simp: getQueryEntry_found storeFind_def)
qed

lemma getQueryEntry_keys:
  "getQueryKey k \<in> storedKeys (snd (getQueryEntry k now c))"
  using getQueryEntry_stored [of k now c] storeFind_keys
  by (fastforce simp: storedKeys_def)

lemma getQueryEntry_entryState:
  "entryState k (snd (getQueryEntry k now c))
     = Some (state (heap (snd (getQueryEntry k now c)) (fst (getQueryEntry k now c))))"
  using getQueryEntry_stored [of k now c] by (auto simp: entryState_def)

lemma getQueryEntry_state:
  "state (heap (snd (getQueryEntry k now c)) (fst (getQueryEntry k now c)))
     = (case liveState k now c of None \<Rightarrow> initialState | Some st \<Rightarrow> st)"
proof (cases rule: cacheGet_cases [of c "getQueryKey k" now])
  case absent
  then have "fst (cacheGet (getQueryKey k) now c) = None" by simp
  from getQueryEntry_made [OF this refl] absent show ?thesis
    by (simp add: cacheSet_frame liveState_def keyExpired_def entryState_def newEntry_def)
next
  case (expired a start)
  then have "fst (cacheGet (getQueryKey k) now c) = None" by simp
  from getQueryEntry_made [OF this refl] expired show ?thesis
    by (simp add: cacheSet_frame liveState_def keyExpired_def entryState_def newEntry_def)
next
  case (live a start)
  then show ?thesis
    by (simp add: getQueryEntry_found liveState_def keyExpired_def entryState_def)
qed

text \<open>
  After \<open>getQueryEntry\<close> the key heads the stored list, once, with a time-to-live that
  has not passed; so a second lookup at the same time finds the same entry and changes
  nothing.
\<close>

lemma getQueryEntry_head:
  "\<exists>start rest. cache (snd (getQueryEntry k now c))
                   = (getQueryKey k, fst (getQueryEntry k now c), start) # rest
      \<and> getQueryKey k \<notin> fst ` set rest \<and> \<not> ttlExpired (ttl c) start now"
proof (cases "fst (cacheGet (getQueryKey k) now c)")
  case None
  define c1 where "c1 = snd (cacheGet (getQueryKey k) now c)"
  have gone: "storeFind (cache c1) (getQueryKey k) = None"
    using cacheGet_None_store [OF None] by (simp add: c1_def)
  have made: "getQueryEntry k now c
       = (nextEntry c,
          cacheSet (getQueryKey k) (nextEntry c) now
            (c1\<lparr>heap := (heap c)(nextEntry c := newEntry), nextEntry := Suc (nextEntry c)\<rparr>))"
    using getQueryEntry_made [OF None c1_def] .
  from cacheSet_head [of "c1\<lparr>heap := (heap c)(nextEntry c := newEntry), nextEntry := Suc (nextEntry c)\<rparr>"
      "getQueryKey k" "nextEntry c" now] gone
  show ?thesis by (auto simp: made ttlExpired_now)
next
  case (Some a)
  then show ?thesis
  proof (cases rule: cacheGet_cases [of c "getQueryKey k" now])
    case (live a' start)
    then show ?thesis
      by (auto simp: getQueryEntry_found storeRemove_keys)
  qed simp_all
qed

lemma getQueryEntry_again:
  assumes g: "getQueryEntry k now c = (a, c1)" and "cache c3 = cache c1" and "ttl c3 = ttl c"
  shows "getQueryEntry k now c3 = (a, c3)"
proof -
  from getQueryEntry_head [of k now c] g obtain start rest where
    h: "cache c1 = (getQueryKey k, a, start) # rest" "getQueryKey k \<notin> fst ` set rest"
       "\<not> ttlExpired (ttl c) start now"
    by auto
  have f: "storeFind (cache c3) (getQueryKey k) = Some (a, start)"
    using h assms by (simp add: storeFind_def)
  have "(getQueryKey k, a, start) # storeRemove (getQueryKey k) (cache c3) = cache c3"
    using h assms by (simp add: storeRemove_def storeRemove_absent [unfolded storeRemove_def])
  then show ?thesis
    using getQueryEntry_found [OF f, of now] h assms by simp
qed

lemma getQueryEntry_single:
  assumes "cache c = [(getQueryKey k, a, start)]" and "\<not> ttlExpired (ttl c) start now"
  shows "getQueryEntry k now c = (a, c)"
proof -
  have f: "storeFind (cache c) (getQueryKey k) = Some (a, start)"
    using assms by (simp add: storeFind_def)
  have "c\<lparr>cache := (getQueryKey k, a, start) # storeRemove (getQueryKey k) (cache c)\<rparr> = c"
    using assms by (simp add: storeRemove_def)
  then show ?thesis using getQueryEntry_found [OF f assms(2)] by simp
qed

lemma getQueryData_single:
  assumes "cache c = [(getQueryKey k, a, start)]" and "\<not> ttlExpired (ttl c) start now"
  shows "getQueryData k now c = (data (state (heap c a)), c)"
proof -
  have f: "storeFind (cache c) (getQueryKey k) = Some (a, start)"
    using assms by (simp add: storeFind_def)
  have "c\<lparr>cache := (getQueryKey k, a, start) # storeRemove (getQueryKey k) (cache c)\<rparr> = c"
    using assms by (simp add: storeRemove_def)
  then show ?thesis by (simp add: getQueryData_def cacheGet_live [OF f assms(2)])
qed

lemma entryState_single:
  "cache c = [(getQueryKey k, a, start)] \<Longrightarrow> entryState k c = Some (state (heap c a))"
  by (simp add: entryState_def storeFind_def)

subsection \<open>Effects of fetchQuery, setQueryData and subscribeToQuery\<close>

lemma fetchQuery_unfold:
  assumes "getQueryEntry (queryKey opts) now c = (a, c1)"
  shows "fetchQuery opts who now c =
     (nextTask c,
      (notifyObservers now a
         (updateEntry a
            (\<lambda>e. e\<lparr>abortController := Some (nextSignal c),
                     state := (state e)\<lparr>fetchStatus := Fetching\<rparr>\<rparr>)
            ((case abortController (heap c1 a) of None \<Rightarrow> c1 | Some s \<Rightarrow> abortSignal s c1)
               \<lparr>nextSignal := Suc (nextSignal c)\<rparr>)))
      \<lparr>tasks := (tasks c)(nextTask c \<mapsto>
           \<lparr>taskEntry = a, taskOptions = opts, taskSignal = nextSignal c, attempt = 0,
            phase = AwaitFn, caller = who\<rparr>),
        nextTask := Suc (nextTask c),
        calls := calls c @ [(nextTask c, queryKey opts, 0)]\<rparr>)"
  using assms getQueryEntry_frame [of "queryKey opts" now c]
  by (simp add: fetchQuery_def Let_def notifyObservers_def updateEntry_def abortSignal_def
      split: option.splits)

lemma fetchQuery_fst: "fst (fetchQuery opts who now c) = nextTask c"
  by (cases "getQueryEntry (queryKey opts) now c") (simp add: fetchQuery_unfold)

lemma fetchQuery_calls:
  "calls (snd (fetchQuery opts who now c)) = calls c @ [(nextTask c, queryKey opts, 0)]"
  by (cases "getQueryEntry (queryKey opts) now c") (simp add: fetchQuery_unfold)

lemma fetchQuery_tasks:
  "tasks (snd (fetchQuery opts who now c)) =
     (tasks c)(nextTask c \<mapsto>
        \<lparr>taskEntry = fst (getQueryEntry (queryKey opts) now c), taskOptions = opts,
         taskSignal = nextSignal c, attempt = 0, phase = AwaitFn, caller = who\<rparr>)"
  by (cases "getQueryEntry (queryKey opts) now c") (simp add: fetchQuery_unfold)

lemma fetchQuery_cache:
  "cache (snd (fetchQuery opts who now c)) = cache (snd (getQueryEntry (queryKey opts) now c))"
  by (cases "getQueryEntry (queryKey opts) now c")
     (simp add: fetchQuery_unfold notifyObservers_def updateEntry_def abortSignal_def
        split: option.splits)

lemma fetchQuery_keys:
  "getQueryKey (queryKey opts) \<in> storedKeys (snd (fetchQuery opts who now c))"
  using getQueryEntry_keys [of "queryKey opts" now c] by (simp add: storedKeys_def fetchQuery_cache)

lemma setQueryData_keys: "getQueryKey k \<in> storedKeys (setQueryData k d now c)"
  using getQueryEntry_keys [of k now c]
  by (cases "getQueryEntry k now c")
     (simp add: storedKeys_def setQueryData_def notifyObservers_def updateEntry_def)

text \<open>
  \<open>subscribeToQuery\<close> in two parts: the registration of the observer, on the entry
  found or made, and the call of \<open>fetchQuery\<close>, which finds that entry again.
\<close>

lemma subscribeToQuery_unfold:
  assumes g: "getQueryEntry (queryKey opts) now c = (a, c1)"
    and c3: "c3 = (case gcTimeout (heap c1 a) of
                     None \<Rightarrow> updateEntry a (\<lambda>e. e\<lparr>observers := observers e @ [(nextObserver c1, opts)]\<rparr>)
                              (c1\<lparr>nextObserver := Suc (nextObserver c1)\<rparr>)
                   | Some tm \<Rightarrow>
                       updateEntry a (\<lambda>e. e\<lparr>gcTimeout := None\<rparr>)
                         (clearTimer tm
                            (updateEntry a (\<lambda>e. e\<lparr>observers := observers e @ [(nextObserver c1, opts)]\<rparr>)
                               (c1\<lparr>nextObserver := Suc (nextObserver c1)\<rparr>))))"
  shows "subscribeToQuery opts now c =
           ((a, nextObserver c1),
            (if enabled opts \<noteq> Some False \<and> status (state (heap c1 a)) = Pending
             then snd (fetchQuery opts FromSubscribe now c3) else c3))"
    and "getQueryEntry (queryKey opts) now c3 = (a, c3)"
    and "calls c3 = calls c" and "nextTask c3 = nextTask c" and "tasks c3 = tasks c"
    and "cache c3 = cache c1" and "state (heap c3 a) = state (heap c1 a)"
proof -
  show cache3: "cache c3 = cache c1"
    by (simp add: c3 updateEntry_def clearTimer_def split: option.splits)
  have ttl3: "ttl c3 = ttl c"
    using getQueryEntry_frame [of "queryKey opts" now c] g
    by (simp add: c3 updateEntry_def clearTimer_def split: option.splits)
  show "getQueryEntry (queryKey opts) now c3 = (a, c3)"
    using getQueryEntry_again [OF g cache3 ttl3] .
  show "calls c3 = calls c" "nextTask c3 = nextTask c" "tasks c3 = tasks c"
    using getQueryEntry_frame [of "queryKey opts" now c] g
    by (simp_all add: c3 updateEntry_def clearTimer_def split: option.splits)
  show st3: "state (heap c3 a) = state (heap c1 a)"
    by (simp add: c3 updateEntry_def clearTimer_def split: option.splits)
  show "subscribeToQuery opts now c =
           ((a, nextObserver c1),
            (if enabled opts \<noteq> Some False \<and> status (state (heap c1 a)) = Pending
             then snd (fetchQuery opts FromSubscribe now c3) else c3))"
    unfolding st3 [symmetric]
    by (simp add: subscribeToQuery_def g Let_def c3 updateEntry_def clearTimer_def
        split: option.splits)
qed

lemma subscribeToQuery_keys:
  "getQueryKey (queryKey opts) \<in> storedKeys (snd (subscribeToQuery opts now c))"
proof -
  obtain a c1 where g: "getQueryEntry (queryKey opts) now c = (a, c1)"
    by (cases "getQueryEntry (queryKey opts) now c")
  define c3 where "c3 = (case gcTimeout (heap c1 a) of
                     None \<Rightarrow> updateEntry a (\<lambda>e. e\<lparr>observers := observers e @ [(nextObserver c1, opts)]\<rparr>)
                              (c1\<lparr>nextObserver := Suc (nextObserver c1)\<rparr>)
                   | Some tm \<Rightarrow>
                       updateEntry a (\<lambda>e. e\<lparr>gcTimeout := None\<rparr>)
                         (clearTimer tm
                            (updateEntry a (\<lambda>e. e\<lparr>observers := observers e @ [(nextObserver c1, opts)]\<rparr>)
                               (c1\<lparr>nextObserver := Suc (nextObserver c1)\<rparr>))))"
  note u = subscribeToQuery_unfold [OF g c3_def]
  have "getQueryKey (queryKey opts) \<in> storedKeys c1"
    using getQueryEntry_keys [of "queryKey opts" now c] g by simp
  then show ?thesis
    by (simp add: u(1) storedKeys_def fetchQuery_cache u(2) u(6))
qed

subsection \<open>The retry loop\<close>

lemma reject_retry_step:
  assumes "tasks c t = Some task" and "phase task = AwaitFn" and "\<not> aborted c (taskSignal task)"
    and "\<And>i. shouldRetry (case retry (taskOptions task) of None \<Rightarrow> RetryCount 3 | Some r \<Rightarrow> r) i err = (i < n)"
    and "attempt task < n"
  shows "retryDelayElapsed t (queryFnSettled t (Rejected err) now c) =
           c\<lparr>tasks := (tasks c)(t \<mapsto> task\<lparr>attempt := Suc (attempt task), phase := AwaitFn\<rparr>),
             calls := calls c @ [(t, queryKey (taskOptions task), Suc (attempt task))]\<rparr>"
  using assms
  by (simp add: queryFnSettled_def retryDelayElapsed_def)

lemma reject_last_step:
  assumes "tasks c t = Some task" and "phase task = AwaitFn" and "\<not> aborted c (taskSignal task)"
    and "\<And>i. shouldRetry (case retry (taskOptions task) of None \<Rightarrow> RetryCount 3 | Some r \<Rightarrow> r) i err = (i < n)"
    and "attempt task = n"
  shows "retryDelayElapsed t (queryFnSettled t (Rejected err) now c) = fetchRejected t task err now c"
    and "tasks (fetchRejected t task err now c) t = None"
proof -
  show none: "tasks (fetchRejected t task err now c) t = None"
    by (simp add: fetchRejected_def finishTask_def Let_def notifyObservers_def updateEntry_def
        split: Outcome.splits)
  have "queryFnSettled t (Rejected err) now c = fetchRejected t task err now c"
    using assms by (simp add: queryFnSettled_def)
  then show "retryDelayElapsed t (queryFnSettled t (Rejected err) now c) = fetchRejected t task err now c"
    using none by (simp add: retryDelayElapsed_def)
qed

lemma fetchRejected_effect:
  assumes "\<not> isAbortError err"
  shows "calls (fetchRejected t task err now c) = calls c"
    and "cache (fetchRejected t task err now c) = cache c"
    and "state (heap (fetchRejected t task err now c) (taskEntry task)) =
           (state (heap c (taskEntry task)))
             \<lparr>error := Some err, errorUpdatedAt := now,
              failureCount := failureCount (state (heap c (taskEntry task))) + 1,
              failureReason := Some err, fetchStatus := Idle, status := Error\<rparr>"
    and "outcomes (fetchRejected t task err now c) = outcomes c @ [(t, Threw err)]"
  using assms
  by (simp_all add: fetchRejected_def finishTask_def Let_def notifyObservers_def updateEntry_def)

lemma rejectAll_run:
  assumes "tasks c t = Some task" and "phase task = AwaitFn" and "\<not> aborted c (taskSignal task)"
    and "\<And>i. shouldRetry (case retry (taskOptions task) of None \<Rightarrow> RetryCount 3 | Some r \<Rightarrow> r) i err = (i < n)"
    and "attempt task + k = n" and "\<not> isAbortError err"
  shows "(\<exists>c'. rejectAll (Suc k) t err now c = Some c'
      \<and> calls c' = calls c @ map (\<lambda>i. (t, queryKey (taskOptions task), i)) [Suc (attempt task)..<Suc n]
      \<and> cache c' = cache c
      \<and> status (state (heap c' (taskEntry task))) = Error
      \<and> error (state (heap c' (taskEntry task))) = Some err
      \<and> outcomes c' = outcomes c @ [(t, Threw err)])
    \<and> (\<forall>m\<le>k. rejectAll m t err now c = None)"
  using assms
proof (induction k arbitrary: c task)
  case 0
  then have n: "attempt task = n" by simp
  note last = reject_last_step [OF "0.prems"(1-4) n]
  note eff = fetchRejected_effect [OF "0.prems"(6), of t task now c]
  show ?case
    using "0.prems"(1) by (simp add: last eff n)
next
  case (Suc k)
  define task' where "task' = task\<lparr>attempt := Suc (attempt task), phase := AwaitFn\<rparr>"
  define c1 where "c1 = c\<lparr>tasks := (tasks c)(t \<mapsto> task'),
             calls := calls c @ [(t, queryKey (taskOptions task), Suc (attempt task))]\<rparr>"
  from Suc.prems have lt: "attempt task < n" by simp
  have step: "retryDelayElapsed t (queryFnSettled t (Rejected err) now c) = c1"
    using reject_retry_step [OF Suc.prems(1-4) lt] by (simp add: c1_def task'_def)
  have p: "tasks c1 t = Some task'" "phase task' = AwaitFn" "\<not> aborted c1 (taskSignal task')"
    "\<And>i. shouldRetry (case retry (taskOptions task') of None \<Rightarrow> RetryCount 3 | Some r \<Rightarrow> r) i err = (i < n)"
    "attempt task' + k = n"
    using Suc.prems by (simp_all add: c1_def task'_def)
  note ih = Suc.IH [OF p Suc.prems(6)]
  from ih obtain c' where
    r: "rejectAll (Suc k) t err now c1 = Some c'"
    and cs: "calls c' = calls c1 @ map (\<lambda>i. (t, queryKey (taskOptions task'), i)) [Suc (attempt task')..<Suc n]"
    and rest: "cache c' = cache c1" "status (state (heap c' (taskEntry task'))) = Error"
      "error (state (heap c' (taskEntry task'))) = Some err"
      "outcomes c' = outcomes c1 @ [(t, Threw err)]"
    by blast
  have up: "[Suc (attempt task)..<Suc n] = Suc (attempt task) # [Suc (Suc (attempt task))..<Suc n]"
    using lt by (simp add: upt_conv_Cons)
  have cs2: "calls c' = calls c @ map (\<lambda>i. (t, queryKey (taskOptions task), i)) [Suc (attempt task)..<Suc n]"
    unfolding up using cs by (simp add: c1_def task'_def del: upt_Suc)
  have unf: "rejectAll (Suc (Suc k)) t err now c = rejectAll (Suc k) t err now c1"
    using Suc.prems(1) by (simp only: rejectAll.simps step option.case)
  have fin: "\<exists>c'. rejectAll (Suc (Suc k)) t err now c = Some c'
      \<and> calls c' = calls c @ map (\<lambda>i. (t, queryKey (taskOptions task), i)) [Suc (attempt task)..<Suc n]
      \<and> cache c' = cache c
      \<and> status (state (heap c' (taskEntry task))) = Error
      \<and> error (state (heap c' (taskEntry task))) = Some err
      \<and> outcomes c' = outcomes c @ [(t, Threw err)]"
    unfolding unf using r cs2 rest
    by (simp add: c1_def task'_def del: rejectAll.simps upt_Suc)
  have early: "\<forall>m\<le>Suc k. rejectAll m t err now c = None"
  proof (intro allI impI)
    fix m assume m: "m \<le> Suc k"
    show "rejectAll m t err now c = None"
    proof (cases m)
      case 0
      then show ?thesis using Suc.prems(1) by simp
    next
      case (Suc m')
      with m have "m' \<le> k" by simp
      with ih have "rejectAll m' t err now c1 = None" by blast
      then show ?thesis using Suc.prems(1) by (simp add: Suc step)
    qed
  qed
  from fin early show ?case by blast
qed

text \<open>
  A rejection with an \<^verbatim>\<open>AbortError\<close> that arrives while the signal is aborted leaves
  every entry as it is, notifies nobody, ends the task and defers only \<^verbatim>\<open>onSettled\<close>.
\<close>

lemma abort_rejection_untouched:
  assumes "tasks c t = Some task" and "phase task = AwaitFn"
    and "aborted c (taskSignal task)" and "isAbortError err"
  shows "heap (queryFnSettled t (Rejected err) now c) = heap c
    \<and> cache (queryFnSettled t (Rejected err) now c) = cache c
    \<and> notifications (queryFnSettled t (Rejected err) now c) = notifications c
    \<and> unhandled (queryFnSettled t (Rejected err) now c) = unhandled c
    \<and> calls (queryFnSettled t (Rejected err) now c) = calls c
    \<and> tasks (queryFnSettled t (Rejected err) now c) t = None
    \<and> deferred (queryFnSettled t (Rejected err) now c)
        = deferred c @ (if onSettled (taskOptions task) then [OnSettled t (taskEntry task)] else [])
    \<and> outcomes (queryFnSettled t (Rejected err) now c)
        = outcomes c @ [(t, ReturnedCached (data (state (heap c (taskEntry task)))))]"
  using assms
  by (simp add: queryFnSettled_def fetchRejected_def finishTask_def Let_def)

subsection \<open>The example runs\<close>

lemma newClient_fields:
  "cache newClient = []" "ttl newClient = 300000" "maxSize newClient = 1000"
  "nextSignal newClient = 0" "nextTask newClient = 0" "calls newClient = []"
  "nextEntry newClient = 0"
  by (simp_all add: newClient_def createClient_def)

lemma queryOptions_fields [simp]:
  "queryKey (queryOptions k r iv) = k" "enabled (queryOptions k r iv) = None"
  "retry (queryOptions k r iv) = r" "refetchInterval (queryOptions k r iv) = iv"
  "retryDelay (queryOptions k r iv) = None" "gcTime (queryOptions k r iv) = None"
  "onSuccess (queryOptions k r iv)" "onError (queryOptions k r iv)"
  "onSettled (queryOptions k r iv)"
  by (simp_all add: queryOptions_def)

lemma made_on_newClient:
  "getQueryEntry k now newClient
     = (0, newClient\<lparr>heap := (heap newClient)(0 := newEntry), nextEntry := Suc 0,
                      cache := [(getQueryKey k, 0, now)]\<rparr>)"
  by (simp add: getQueryEntry_def cacheGet_def cacheSet_def storeFind_def newClient_def
      createClient_def)

lemma ttl_300000 [simp]:
  "0 \<le> now \<Longrightarrow> now \<le> 300000 \<Longrightarrow> \<not> ttlExpired 300000 0 now"
  by (simp add: ttlExpired_def)

lemmas settle_defs = queryFnSettled_def fetchResolved_def fetchRejected_def finishTask_def
  shouldRetry_def retryDelayMs_def updateEntry_def setTimer_def notifyObservers_def
  isAbortError_def Let_def

lemma oneFetch_facts:
  "tasks oneFetch 0 = Some \<lparr>taskEntry = 0, taskOptions = queryOptions postsList (Some (RetryCount 0)) None,
       taskSignal = 0, attempt = 0, phase = AwaitFn, caller = Direct\<rparr>"
  "cache oneFetch = [(getQueryKey postsList, 0, 0)]"
  "ttl oneFetch = 300000"
  "nextTask oneFetch = 1" "nextSignal oneFetch = 1"
  "abortController (heap oneFetch 0) = Some 0"
  "gcTimeout (heap oneFetch 0) = None"
  "refetchTimer (heap oneFetch 0) = None"
  "aborted oneFetch = (\<lambda>s. False)"
  "calls oneFetch = [(0, postsList, 0)]"
  "outcomes oneFetch = []"
  "state (heap oneFetch 0) = initialState\<lparr>fetchStatus := Fetching\<rparr>"
  "observers (heap oneFetch 0) = []"
  unfolding oneFetch_def fetchQuery_unfold [OF made_on_newClient]
  by (simp_all add: updateEntry_def notifyObservers_def newClient_def createClient_def
      newEntry_def)

lemma twoFetches_facts:
  "tasks twoFetches 0 = Some \<lparr>taskEntry = 0, taskOptions = queryOptions postsList (Some (RetryCount 0)) None,
       taskSignal = 0, attempt = 0, phase = AwaitFn, caller = Direct\<rparr>"
  "tasks twoFetches 1 = Some \<lparr>taskEntry = 0, taskOptions = queryOptions postsList (Some (RetryCount 0)) None,
       taskSignal = 1, attempt = 0, phase = AwaitFn, caller = Direct\<rparr>"
  "cache twoFetches = [(getQueryKey postsList, 0, 0)]"
  "ttl twoFetches = 300000"
  "aborted twoFetches 0" "\<not> aborted twoFetches 1"
  "calls twoFetches = [(0, postsList, 0), (1, postsList, 0)]"
  "state (heap twoFetches 0) = initialState\<lparr>fetchStatus := Fetching\<rparr>"
proof -
  have g: "getQueryEntry (queryKey (queryOptions postsList (Some (RetryCount 0)) None)) 1 oneFetch
             = (0, oneFetch)"
    using oneFetch_facts by (simp add: getQueryEntry_single)
  note u = fetchQuery_unfold [OF g]
  show "tasks twoFetches 0 = Some \<lparr>taskEntry = 0, taskOptions = queryOptions postsList (Some (RetryCount 0)) None,
       taskSignal = 0, attempt = 0, phase = AwaitFn, caller = Direct\<rparr>"
  "tasks twoFetches 1 = Some \<lparr>taskEntry = 0, taskOptions = queryOptions postsList (Some (RetryCount 0)) None,
       taskSignal = 1, attempt = 0, phase = AwaitFn, caller = Direct\<rparr>"
  "cache twoFetches = [(getQueryKey postsList, 0, 0)]"
  "ttl twoFetches = 300000"
  "aborted twoFetches 0" "\<not> aborted twoFetches 1"
  "calls twoFetches = [(0, postsList, 0), (1, postsList, 0)]"
  "state (heap twoFetches 0) = initialState\<lparr>fetchStatus := Fetching\<rparr>"
    using oneFetch_facts
    by (simp_all add: twoFetches_def u notifyObservers_def updateEntry_def abortSignal_def)
qed

lemma failedFetch_facts:
  "cache failedFetch = [(getQueryKey postsList, 0, 0)]"
  "ttl failedFetch = 300000"
  "status (state (heap failedFetch 0)) = Error"
  "error (state (heap failedFetch 0)) = Some boom"
  "data (state (heap failedFetch 0)) = None"
  "dataUpdatedAt (state (heap failedFetch 0)) = 0"
  "gcTimeout (heap failedFetch 0) = None"
  "calls failedFetch = [(0, postsList, 0)]"
  "tasks failedFetch 0 = None"
  "outcomes failedFetch = [(0, Threw boom)]"
  using oneFetch_facts
  by (simp_all add: failedFetch_def settle_defs queryOptions_def boom_def initialState_def)

lemma subscribed_facts:
  "tasks subscribed 0 = Some \<lparr>taskEntry = 0, taskOptions = queryOptions postsList (Some (RetryCount 0)) None,
       taskSignal = 0, attempt = 0, phase = AwaitFn, caller = FromSubscribe\<rparr>"
  "cache subscribed = [(getQueryKey postsList, 0, 0)]"
  "ttl subscribed = 300000"
  "observers (heap subscribed 0) = [(0, queryOptions postsList (Some (RetryCount 0)) None)]"
  "aborted subscribed = (\<lambda>s. False)"
  "calls subscribed = [(0, postsList, 0)]"
  "unhandled subscribed = []"
  "outcomes subscribed = []"
  "nextTask subscribed = 1" "nextSignal subscribed = 1"
  "abortController (heap subscribed 0) = Some 0"
  "data (state (heap subscribed 0)) = None"
  "error (state (heap subscribed 0)) = None"
  "isInvalidated (state (heap subscribed 0)) = False"
proof -
  define c3 where "c3 = newClient\<lparr>heap := (heap newClient)(0 := newEntry\<lparr>observers :=
        [(0, queryOptions postsList (Some (RetryCount 0)) None)]\<rparr>), nextEntry := Suc 0,
      cache := [(getQueryKey postsList, 0, 0)], nextObserver := Suc 0\<rparr>"
  have g3: "getQueryEntry (queryKey (queryOptions postsList (Some (RetryCount 0)) None)) 0 c3 = (0, c3)"
    by (simp add: getQueryEntry_single c3_def newClient_def createClient_def)
  have s: "subscribed = snd (fetchQuery (queryOptions postsList (Some (RetryCount 0)) None) FromSubscribe 0 c3)"
    unfolding subscribed_def subscribeToQuery_def made_on_newClient
    by (simp add: c3_def updateEntry_def newClient_def createClient_def newEntry_def
        initialState_def Let_def)
  show "tasks subscribed 0 = Some \<lparr>taskEntry = 0, taskOptions = queryOptions postsList (Some (RetryCount 0)) None,
       taskSignal = 0, attempt = 0, phase = AwaitFn, caller = FromSubscribe\<rparr>"
  "cache subscribed = [(getQueryKey postsList, 0, 0)]"
  "ttl subscribed = 300000"
  "observers (heap subscribed 0) = [(0, queryOptions postsList (Some (RetryCount 0)) None)]"
  "aborted subscribed = (\<lambda>s. False)"
  "calls subscribed = [(0, postsList, 0)]"
  "unhandled subscribed = []"
  "outcomes subscribed = []"
  "nextTask subscribed = 1" "nextSignal subscribed = 1"
  "abortController (heap subscribed 0) = Some 0"
  "data (state (heap subscribed 0)) = None"
  "error (state (heap subscribed 0)) = None"
  "isInvalidated (state (heap subscribed 0)) = False"
    unfolding s fetchQuery_unfold [OF g3]
    by (simp_all add: c3_def updateEntry_def notifyObservers_def newClient_def createClient_def
        newEntry_def initialState_def)
qed

lemma loaded_facts:
  "cache loaded = [(getQueryKey postsList, 0, 0)]"
  "ttl loaded = 300000"
  "map fst (observers (heap loaded 0)) = [0]"
  "calls loaded = [(0, postsList, 0)]"
  "tasks loaded 0 = None"
  "nextTask loaded = 1" "nextSignal loaded = 1"
  "aborted loaded = (\<lambda>s. False)"
  "abortController (heap loaded 0) = Some 0"
  "data (state (heap loaded 0)) = Some ''v1''"
  "error (state (heap loaded 0)) = None"
  "status (state (heap loaded 0)) = Success"
  "isInvalidated (state (heap loaded 0)) = False"
  using subscribed_facts
  by (simp_all add: loaded_def settle_defs queryOptions_def)

lemma posts_keys:
  "getQueryKey (KeyArray [''posts'']) \<noteq> getQueryKey postsList"
  by (simp add: postsList_def jsonString_def jsonEscape_def)

lemma polled_facts:
  "timers polled 0 = Some (RefetchEvery (queryOptions postsList (Some (RetryCount 0)) (Some 1000)))"
  "cache polled = [(getQueryKey postsList, 0, 0)]"
  "ttl polled = 300000"
  "nextTask polled = 1"
  "nextSignal polled = 1"
  "aborted polled = (\<lambda>s. False)"
  "unhandled polled = []"
  "abortController (heap polled 0) = Some 0"
  "status (state (heap polled 0)) = Success"
  unfolding polled_def fetchQuery_unfold [OF made_on_newClient]
  by (simp_all add: settle_defs queryOptions_def newClient_def createClient_def newEntry_def)

lemma polledAgain_facts:
  "tasks polledAgain 1 = Some \<lparr>taskEntry = 0,
       taskOptions = queryOptions postsList (Some (RetryCount 0)) (Some 1000),
       taskSignal = 1, attempt = 0, phase = AwaitFn, caller = FromInterval\<rparr>"
  "\<not> aborted polledAgain 1"
  "unhandled polledAgain = []"
  "cache polledAgain = [(getQueryKey postsList, 0, 0)]"
proof -
  have g: "getQueryEntry (queryKey (queryOptions postsList (Some (RetryCount 0)) (Some 1000))) 1005 polled
             = (0, polled)"
    using polled_facts by (simp add: getQueryEntry_single)
  note u = fetchQuery_unfold [OF g]
  show "tasks polledAgain 1 = Some \<lparr>taskEntry = 0,
       taskOptions = queryOptions postsList (Some (RetryCount 0)) (Some 1000),
       taskSignal = 1, attempt = 0, phase = AwaitFn, caller = FromInterval\<rparr>"
  "\<not> aborted polledAgain 1"
  "unhandled polledAgain = []"
  "cache polledAgain = [(getQueryKey postsList, 0, 0)]"
    using polled_facts
    by (simp_all add: polledAgain_def fireTimer_def u notifyObservers_def updateEntry_def
        abortSignal_def)
qed

lemma refetching_facts:
  "tasks refetching 1 = Some \<lparr>taskEntry = 0, taskOptions = queryOptions postsList None None,
       taskSignal = 1, attempt = 0, phase = AwaitFn, caller = Direct\<rparr>"
  "cache refetching = [(getQueryKey postsList, 0, 0)]"
  "ttl refetching = 300000"
  "\<not> aborted refetching 1"
  "abortController (heap refetching 0) = Some 1"
  "nextTask refetching = 2" "nextSignal refetching = 2"
  "calls refetching = [(0, postsList, 0), (1, postsList, 0)]"
  "map fst (observers (heap refetching 0)) = [0]"
  "data (state (heap refetching 0)) = Some ''v1''"
  "error (state (heap refetching 0)) = None"
  "status (state (heap refetching 0)) = Success"
proof -
  have g: "getQueryEntry (queryKey (queryOptions postsList None None)) 10 loaded = (0, loaded)"
    using loaded_facts by (simp add: getQueryEntry_single)
  note u = fetchQuery_unfold [OF g]
  show "tasks refetching 1 = Some \<lparr>taskEntry = 0, taskOptions = queryOptions postsList None None,
       taskSignal = 1, attempt = 0, phase = AwaitFn, caller = Direct\<rparr>"
  "cache refetching = [(getQueryKey postsList, 0, 0)]"
  "ttl refetching = 300000"
  "\<not> aborted refetching 1"
  "abortController (heap refetching 0) = Some 1"
  "nextTask refetching = 2" "nextSignal refetching = 2"
  "calls refetching = [(0, postsList, 0), (1, postsList, 0)]"
  "map fst (observers (heap refetching 0)) = [0]"
  "data (state (heap refetching 0)) = Some ''v1''"
  "error (state (heap refetching 0)) = None"
  "status (state (heap refetching 0)) = Success"
    using loaded_facts
    by (simp_all add: refetching_def u notifyObservers_def updateEntry_def abortSignal_def)
qed

lemma backingOff_facts:
  "tasks backingOff 1 = Some \<lparr>taskEntry = 0, taskOptions = queryOptions postsList None None,
       taskSignal = 1, attempt = 0, phase = AwaitDelay 1000, caller = Direct\<rparr>"
  "cache backingOff = [(getQueryKey postsList, 0, 0)]"
  "ttl backingOff = 300000"
  "\<not> aborted backingOff 1"
  "abortController (heap backingOff 0) = Some 1"
  "nextTask backingOff = 2" "nextSignal backingOff = 2"
  "calls backingOff = [(0, postsList, 0), (1, postsList, 0)]"
  "map fst (observers (heap backingOff 0)) = [0]"
  "data (state (heap backingOff 0)) = Some ''v1''"
  "error (state (heap backingOff 0)) = None"
  "status (state (heap backingOff 0)) = Success"
  using refetching_facts
  by (simp_all add: backingOff_def queryFnSettled_def shouldRetry_def retryDelayMs_def)

lemma supersededAsleep_facts:
  "tasks supersededAsleep 1 = Some \<lparr>taskEntry = 0, taskOptions = queryOptions postsList None None,
       taskSignal = 1, attempt = 0, phase = AwaitDelay 1000, caller = Direct\<rparr>"
  "aborted supersededAsleep 1"
  "calls supersededAsleep = [(0, postsList, 0), (1, postsList, 0), (2, postsList, 0)]"
  "map fst (observers (heap supersededAsleep 0)) = [0]"
  "data (state (heap supersededAsleep 0)) = Some ''v1''"
  "error (state (heap supersededAsleep 0)) = None"
  "status (state (heap supersededAsleep 0)) = Success"
proof -
  have g: "getQueryEntry (queryKey (queryOptions postsList None None)) 30 backingOff = (0, backingOff)"
    using backingOff_facts by (simp add: getQueryEntry_single)
  note u = fetchQuery_unfold [OF g]
  show "tasks supersededAsleep 1 = Some \<lparr>taskEntry = 0, taskOptions = queryOptions postsList None None,
       taskSignal = 1, attempt = 0, phase = AwaitDelay 1000, caller = Direct\<rparr>"
  "aborted supersededAsleep 1"
  "calls supersededAsleep = [(0, postsList, 0), (1, postsList, 0), (2, postsList, 0)]"
  "map fst (observers (heap supersededAsleep 0)) = [0]"
  "data (state (heap supersededAsleep 0)) = Some ''v1''"
  "error (state (heap supersededAsleep 0)) = None"
  "status (state (heap supersededAsleep 0)) = Success"
    using backingOff_facts
    by (simp_all add: supersededAsleep_def u notifyObservers_def updateEntry_def abortSignal_def)
qed

lemma calledAgain_facts:
  "tasks calledAgain 1 = Some \<lparr>taskEntry = 0, taskOptions = queryOptions postsList None None,
       taskSignal = 1, attempt = 1, phase = AwaitFn, caller = Direct\<rparr>"
  "aborted calledAgain 1"
  "calls calledAgain = [(0, postsList, 0), (1, postsList, 0), (2, postsList, 0), (1, postsList, 1)]"
  "heap calledAgain = heap supersededAsleep"
  using supersededAsleep_facts
  by (simp_all add: calledAgain_def retryDelayElapsed_def)

section \<open>The claims\<close>

subsection \<open>Single flight\<close>

text \<open>
  C1. The claim: when a second \<open>fetchQuery\<close> for a key starts before the first one
  settles, the first one's late result never overwrites what the second wrote. The code
  at the claim's own example: fetch A (task 0) is superseded by fetch B (task 1), whose
  start aborts A's signal; B resolves at time 11 and the entry holds B's data; A's query
  function ignores the signal and resolves at time 100, and the entry then holds A's
  data. A late rejection of A with an ordinary error likewise puts the entry in status
  error after B's success.
\<close>

theorem superseded_fetch_overwrites:
  "aborted twoFetches 0
   \<and> fst (getQueryData postsList 11 (queryFnSettled 1 (Resolved (Some ''B'')) 11 twoFetches))
       = Some ''B''
   \<and> fst (getQueryData postsList 100
        (queryFnSettled 0 (Resolved (Some ''A'')) 100
           (queryFnSettled 1 (Resolved (Some ''B'')) 11 twoFetches))) = Some ''A''
   \<and> map_option status (entryState postsList
        (queryFnSettled 0 (Rejected boom) 100
           (queryFnSettled 1 (Resolved (Some ''B'')) 11 twoFetches))) = Some Error"
proof -
  define cB where "cB = queryFnSettled 1 (Resolved (Some ''B'')) 11 twoFetches"
  have b: "cache cB = [(getQueryKey postsList, 0, 0)]" "ttl cB = 300000"
    "data (state (heap cB 0)) = Some ''B''"
    "tasks cB 0 = Some \<lparr>taskEntry = 0, taskOptions = queryOptions postsList (Some (RetryCount 0)) None,
       taskSignal = 0, attempt = 0, phase = AwaitFn, caller = Direct\<rparr>"
    "aborted cB 0"
    using twoFetches_facts by (simp_all add: cB_def settle_defs queryOptions_def)
  define cA where "cA = queryFnSettled 0 (Resolved (Some ''A'')) 100 cB"
  have a: "cache cA = [(getQueryKey postsList, 0, 0)]" "ttl cA = 300000"
    "data (state (heap cA 0)) = Some ''A''"
    using b by (simp_all add: cA_def settle_defs queryOptions_def)
  define cE where "cE = queryFnSettled 0 (Rejected boom) 100 cB"
  have e: "cache cE = [(getQueryKey postsList, 0, 0)]" "status (state (heap cE 0)) = Error"
    using b by (simp_all add: cE_def settle_defs queryOptions_def boom_def)
  show ?thesis
    unfolding cB_def [symmetric] cA_def [symmetric] cE_def [symmetric]
    using twoFetches_facts(5) a b e
    by (simp add: getQueryData_single entryState_single)
qed

subsection \<open>Invalidation\<close>

text \<open>
  C2. The claim: invalidating a key that matches an entry with an active observer flags
  the entry and starts exactly one refetch, also when the key is a prefix of the entry's
  key. The code on the entry \<^verbatim>\<open>['posts','list']\<close> with one observer and loaded
  data: invalidating \<^verbatim>\<open>['posts']\<close> changes nothing at all, and invalidating the
  exact key sets the flag and keeps the data but calls no query function: the only call
  ever made is the one of the subscription.
\<close>

theorem invalidateQueries_no_refetch:
  "map fst (observers (heap loaded 0)) = [0]
   \<and> calls loaded = [(0, postsList, 0)]
   \<and> invalidateQueries (Some (KeyArray [''posts''])) 7 loaded = loaded
   \<and> map_option isInvalidated (entryState postsList (invalidateQueries (Some postsList) 7 loaded))
       = Some True
   \<and> map_option data (entryState postsList (invalidateQueries (Some postsList) 7 loaded))
       = Some (Some ''v1'')
   \<and> calls (invalidateQueries (Some postsList) 7 loaded) = [(0, postsList, 0)]
   \<and> tasks (invalidateQueries (Some postsList) 7 loaded) = tasks loaded"
proof -
  have absent: "cacheGet (getQueryKey (KeyArray [''posts''])) 7 loaded = (None, loaded)"
    using loaded_facts posts_keys by (simp add: cacheGet_absent storeFind_def)
  have f: "storeFind (cache loaded) (getQueryKey postsList) = Some (0, 0)"
    using loaded_facts by (simp add: storeFind_def)
  have "loaded\<lparr>cache := (getQueryKey postsList, 0, 0) # storeRemove (getQueryKey postsList) (cache loaded)\<rparr>
          = loaded"
    using loaded_facts by (simp add: storeRemove_def)
  then have live: "cacheGet (getQueryKey postsList) 7 loaded = (Some 0, loaded)"
    using cacheGet_live [OF f, of 7] loaded_facts by simp
  have kt: "keyTruthy postsList" "keyTruthy (KeyArray [''posts''])"
    by (simp_all add: keyTruthy_def postsList_def)
  have i1: "invalidateQueries (Some (KeyArray [''posts''])) 7 loaded = loaded"
    by (simp only: invalidateQueries_def option.case kt if_True absent prod.case)
  have i2: "invalidateQueries (Some postsList) 7 loaded = invalidateEntry 7 0 loaded"
    by (simp only: invalidateQueries_def option.case kt if_True live prod.case)
  show ?thesis
    unfolding i1 i2
    using loaded_facts
    by (simp add: invalidateEntry_def entryState_def storeFind_def updateEntry_def
        notifyObservers_def)
qed

subsection \<open>Rejections on the subscription and interval paths\<close>

text \<open>
  C3. The claim: a rejection of the query function never escapes as an unhandled promise
  rejection on the subscription and background paths. The code: the fetch started by
  \<open>subscribeToQuery\<close> records the error in the entry and then rejects the promise
  that \<open>subscribeToQuery\<close> dropped; the fetch started by the refetch interval does the
  same.
\<close>

theorem background_rejection_unhandled:
  "unhandled subscribed = []
   \<and> unhandled (queryFnSettled 0 (Rejected boom) 5 subscribed) = [(0, boom)]
   \<and> outcomes (queryFnSettled 0 (Rejected boom) 5 subscribed) = [(0, Threw boom)]
   \<and> map_option status (entryState postsList (queryFnSettled 0 (Rejected boom) 5 subscribed))
       = Some Error
   \<and> map_option error (entryState postsList (queryFnSettled 0 (Rejected boom) 5 subscribed))
       = Some (Some boom)
   \<and> unhandled polledAgain = []
   \<and> unhandled (queryFnSettled 1 (Rejected boom) 1010 polledAgain) = [(1, boom)]"
  using subscribed_facts polledAgain_facts
  by (simp add: settle_defs queryOptions_def boom_def entryState_def storeFind_def)

subsection \<open>The state invariant\<close>

text \<open>
  C4. The claim: after every public operation, status success implies that the error is
  null; in particular \<open>setQueryData\<close> on an entry in status error yields success with
  error null. The code: after a fetch failed with \<open>boom\<close>, \<open>setQueryData\<close> sets the
  status to success and leaves the error \<open>boom\<close> in place.
\<close>

theorem setQueryData_keeps_error:
  "map_option status (entryState postsList failedFetch) = Some Error
   \<and> map_option error (entryState postsList failedFetch) = Some (Some boom)
   \<and> map_option status (entryState postsList (setQueryData postsList (Some ''X'') 9 failedFetch))
       = Some Success
   \<and> map_option error (entryState postsList (setQueryData postsList (Some ''X'') 9 failedFetch))
       = Some (Some boom)"
proof -
  have g: "getQueryEntry postsList 9 failedFetch = (0, failedFetch)"
    using failedFetch_facts by (simp add: getQueryEntry_single)
  show ?thesis
    using failedFetch_facts
    by (simp add: entryState_def storeFind_def setQueryData_def g updateEntry_def
        notifyObservers_def)
qed

subsection \<open>Counting the calls of a query function that always rejects\<close>

text \<open>
  C5. A fetch whose retry option is the number \<open>n\<close> (or is not given, or is
  \<^verbatim>\<open>true\<close>, with \<open>n = 3\<close>), whose query function rejects every call with an
  error other than an \<^verbatim>\<open>AbortError\<close> and whose signal is not aborted: after
  exactly \<open>n + 1\<close> calls of the query function (attempts \<open>0\<close> to \<open>n\<close>) the promise
  settles and the entry's status is error; after fewer rejections the fetch is still
  suspended. So \<^verbatim>\<open>retry = 2\<close> gives 3 calls and the default gives 4.
\<close>

theorem retry_invocation_count:
  assumes pol: "retry opts = Some (RetryCount (int n)) \<or> (retry opts = None \<and> n = 3)
                \<or> (retry opts = Some (RetryFlag True) \<and> n = 3)"
    and err: "\<not> isAbortError err"
    and live: "\<not> aborted (snd (fetchQuery opts who now c)) (nextSignal c)"
  shows "(\<exists>c'. rejectAll (Suc n) (fst (fetchQuery opts who now c)) err now'
                 (snd (fetchQuery opts who now c)) = Some c'
            \<and> calls c' = calls c @ map (\<lambda>i. (nextTask c, queryKey opts, i)) [0..<Suc n]
            \<and> length (calls c') = length (calls c) + n + 1
            \<and> map_option status (entryState (queryKey opts) c') = Some Error)
       \<and> (\<forall>m\<le>n. rejectAll m (fst (fetchQuery opts who now c)) err now'
                 (snd (fetchQuery opts who now c)) = None)"
proof -
  define c1 where "c1 = snd (fetchQuery opts who now c)"
  define a where "a = fst (getQueryEntry (queryKey opts) now c)"
  define task where "task = \<lparr>taskEntry = a, taskOptions = opts, taskSignal = nextSignal c,
                              attempt = 0, phase = AwaitFn, caller = who\<rparr>"
  have t1: "tasks c1 (nextTask c) = Some task"
    by (simp add: c1_def task_def a_def fetchQuery_tasks)
  have t2: "phase task = AwaitFn" and t3: "\<not> aborted c1 (taskSignal task)"
    using live by (simp_all add: task_def c1_def)
  have t4: "\<And>i. shouldRetry (case retry (taskOptions task) of None \<Rightarrow> RetryCount 3 | Some r \<Rightarrow> r) i err
              = (i < n)"
    using pol by (auto simp: task_def shouldRetry_def)
  have t5: "attempt task + n = n" by (simp add: task_def)
  have look: "\<exists>start. storeFind (cache c1) (getQueryKey (queryKey opts)) = Some (a, start)"
    using getQueryEntry_stored [of "queryKey opts" now c]
    by (auto simp: c1_def a_def fetchQuery_cache)
  have cs: "calls c1 = calls c @ [(nextTask c, queryKey opts, 0)]"
    by (simp add: c1_def fetchQuery_calls)
  from rejectAll_run [OF t1 t2 t3 t4 t5 err, of now'] obtain c' where
    r: "rejectAll (Suc n) (nextTask c) err now' c1 = Some c'"
    and c: "calls c' = calls c1 @ map (\<lambda>i. (nextTask c, queryKey (taskOptions task), i)) [Suc (attempt task)..<Suc n]"
    and k: "cache c' = cache c1"
    and s: "status (state (heap c' (taskEntry task))) = Error"
    and early: "\<forall>m\<le>n. rejectAll m (nextTask c) err now' c1 = None"
    by blast
  have up: "[0..<Suc n] = 0 # [Suc 0..<Suc n]"
    by (simp add: upt_conv_Cons)
  have c2: "calls c' = calls c @ map (\<lambda>i. (nextTask c, queryKey opts, i)) [0..<Suc n]"
    unfolding up using c cs by (simp add: task_def del: upt_Suc)
  have s2: "map_option status (entryState (queryKey opts) c') = Some Error"
    using s look k by (auto simp: entryState_def task_def)
  have len: "length (calls c') = length (calls c) + n + 1"
    by (simp add: c2)
  show ?thesis
    using r c2 s2 len early by (simp add: fetchQuery_fst c1_def [symmetric] del: upt_Suc rejectAll.simps)
qed

text \<open>C5 at \<^verbatim>\<open>retry = 2\<close> on a fresh client: three calls, and two rejections do not settle it.\<close>

theorem retry_invocation_count_witness:
  "retry (queryOptions postsList (Some (RetryCount 2)) None) = Some (RetryCount 2)
   \<and> \<not> isAbortError boom
   \<and> \<not> aborted (snd (fetchQuery (queryOptions postsList (Some (RetryCount 2)) None) Direct 0 newClient)) 0
   \<and> (\<exists>c'. rejectAll 3 0 boom 5
               (snd (fetchQuery (queryOptions postsList (Some (RetryCount 2)) None) Direct 0 newClient))
             = Some c'
          \<and> calls c' = [(0, postsList, 0), (0, postsList, 1), (0, postsList, 2)]
          \<and> map_option status (entryState postsList c') = Some Error)
   \<and> rejectAll 2 0 boom 5
        (snd (fetchQuery (queryOptions postsList (Some (RetryCount 2)) None) Direct 0 newClient))
      = None"
proof -
  have h1: "retry (queryOptions postsList (Some (RetryCount 2)) None) = Some (RetryCount (int 2))
            \<or> (retry (queryOptions postsList (Some (RetryCount 2)) None) = None \<and> (2::nat) = 3)
            \<or> (retry (queryOptions postsList (Some (RetryCount 2)) None) = Some (RetryFlag True)
                \<and> (2::nat) = 3)"
    by simp
  have h2: "\<not> isAbortError boom"
    by (simp add: isAbortError_def boom_def)
  have h3: "\<not> aborted (snd (fetchQuery (queryOptions postsList (Some (RetryCount 2)) None) Direct 0 newClient))
                 (nextSignal newClient)"
    unfolding fetchQuery_unfold [OF made_on_newClient]
    by (simp add: updateEntry_def notifyObservers_def newClient_def createClient_def newEntry_def)
  note n0 = newClient_fields(4,5,6)
  have three: "Suc 2 = 3" by simp
  have upt3: "[0..<3] = [0, Suc 0, 2]" by (simp add: upt_rec numeral_3_eq_3 numeral_2_eq_2)
  from retry_invocation_count [OF h1 h2 h3, of 5, unfolded fetchQuery_fst n0 three upt3]
  obtain c' where
    "rejectAll 3 0 boom 5
       (snd (fetchQuery (queryOptions postsList (Some (RetryCount 2)) None) Direct 0 newClient))
     = Some c'"
    "calls c' = [(0, postsList, 0), (0, postsList, 1), (0, postsList, 2)]"
    "map_option status (entryState postsList c') = Some Error"
    and early: "\<forall>m\<le>2. rejectAll m 0 boom 5
        (snd (fetchQuery (queryOptions postsList (Some (RetryCount 2)) None) Direct 0 newClient))
      = None"
    by (auto simp del: rejectAll.simps)
  moreover from early have "rejectAll 2 0 boom 5
        (snd (fetchQuery (queryOptions postsList (Some (RetryCount 2)) None) Direct 0 newClient))
      = None"
    by blast
  ultimately show ?thesis
    using h2 h3 n0 by (simp del: rejectAll.simps)
qed

subsection \<open>A cancelled attempt\<close>

text \<open>
  C6. The claim: for every attempt cancelled mid-flight the state is untouched, nothing
  is surfaced, and retries are short-circuited immediately. The code on an entry with an
  observer and loaded data: a refetch with the default retry policy (task 1) fails its
  first attempt and sleeps for the retry delay of 1000 ms; a new \<open>fetchQuery\<close>
  supersedes it during the sleep and aborts its signal; when the sleep ends the loop
  calls the query function again, as attempt 1 of the cancelled task, because the signal
  is tested only after a rejection. Only when that call rejects with an
  \<^verbatim>\<open>AbortError\<close> does the loop stop, and then the rest of the claim holds: the
  entries are as they were, no observer is notified and only \<^verbatim>\<open>onSettled\<close> is
  deferred.
\<close>

theorem superseded_in_backoff_calls_again:
  "aborted supersededAsleep 1
   \<and> tasks supersededAsleep 1
       = Some \<lparr>taskEntry = 0, taskOptions = queryOptions postsList None None,
               taskSignal = 1, attempt = 0, phase = AwaitDelay 1000, caller = Direct\<rparr>
   \<and> calls supersededAsleep = [(0, postsList, 0), (1, postsList, 0), (2, postsList, 0)]
   \<and> calls calledAgain
       = [(0, postsList, 0), (1, postsList, 0), (2, postsList, 0), (1, postsList, 1)]
   \<and> map fst (observers (heap calledAgain 0)) = [0]
   \<and> data (state (heap calledAgain 0)) = Some ''v1''
   \<and> heap (queryFnSettled 1 (Rejected abortError) 1025 calledAgain) = heap calledAgain
   \<and> notifications (queryFnSettled 1 (Rejected abortError) 1025 calledAgain)
       = notifications calledAgain
   \<and> calls (queryFnSettled 1 (Rejected abortError) 1025 calledAgain) = calls calledAgain
   \<and> tasks (queryFnSettled 1 (Rejected abortError) 1025 calledAgain) 1 = None
   \<and> deferred (queryFnSettled 1 (Rejected abortError) 1025 calledAgain)
       = deferred calledAgain @ [OnSettled 1 0]"
proof -
  have ab: "isAbortError abortError"
    by (simp add: isAbortError_def abortError_def)
  have ph: "phase \<lparr>taskEntry = 0, taskOptions = queryOptions postsList None None,
       taskSignal = 1, attempt = 1, phase = AwaitFn, caller = Direct\<rparr> = AwaitFn"
    by simp
  have sg: "aborted calledAgain (taskSignal \<lparr>taskEntry = 0,
       taskOptions = queryOptions postsList None None,
       taskSignal = 1, attempt = 1, phase = AwaitFn, caller = Direct\<rparr>)"
    using calledAgain_facts by simp
  note u = abort_rejection_untouched [OF calledAgain_facts(1) ph sg ab, of 1025]
  show ?thesis
    using u supersededAsleep_facts calledAgain_facts
    by (simp add: queryOptions_def)
qed

subsection \<open>Writing and reading data directly\<close>

text \<open>
  C7. For every key and value \<open>x\<close>, \<open>getQueryData\<close> after \<open>setQueryData k x\<close>
  returns \<open>x\<close>, at the time of the write and at any later time at which the key's
  time-to-live has not passed; the entry's status is success, and neither operation calls
  a query function: the log of calls and the suspended fetches are those of before.
\<close>

theorem setQueryData_getQueryData:
  "fst (getQueryData k now (setQueryData k x now c)) = x
   \<and> (\<forall>now'. \<not> keyExpired k now' (setQueryData k x now c)
          \<longrightarrow> fst (getQueryData k now' (setQueryData k x now c)) = x)
   \<and> map_option status (entryState k (setQueryData k x now c)) = Some Success
   \<and> calls (snd (getQueryData k now (setQueryData k x now c))) = calls c
   \<and> tasks (snd (getQueryData k now (setQueryData k x now c))) = tasks c"
proof -
  obtain a c1 where g: "getQueryEntry k now c = (a, c1)" by (cases "getQueryEntry k now c")
  from getQueryEntry_head [of k now c] g obtain start rest where
    h: "cache c1 = (getQueryKey k, a, start) # rest" "\<not> ttlExpired (ttl c) start now"
    by auto
  have fr: "calls c1 = calls c" "tasks c1 = tasks c" "ttl c1 = ttl c"
    using getQueryEntry_frame [of k now c] g by simp_all
  define c2 where "c2 = setQueryData k x now c"
  have c2: "c2 = notifyObservers now a
           (updateEntry a
              (\<lambda>e. e\<lparr>state := (state e)\<lparr>data := x, dataUpdatedAt := now, status := Success\<rparr>\<rparr>) c1)"
    by (simp add: c2_def setQueryData_def g)
  have f: "storeFind (cache c2) (getQueryKey k) = Some (a, start)"
    using h by (simp add: c2 notifyObservers_def updateEntry_def storeFind_def)
  have e: "\<not> ttlExpired (ttl c2) start now"
    using h fr by (simp add: c2 notifyObservers_def updateEntry_def)
  have same: "fst (getQueryData k now c2) = x \<and> map_option status (entryState k c2) = Some Success
     \<and> calls (snd (getQueryData k now c2)) = calls c \<and> tasks (snd (getQueryData k now c2)) = tasks c"
    using f fr by (simp add: getQueryData_def cacheGet_live [OF f e] entryState_def)
      (simp add: c2 notifyObservers_def updateEntry_def)
  have later: "\<forall>now'. \<not> keyExpired k now' c2 \<longrightarrow> fst (getQueryData k now' c2) = x"
  proof (intro allI impI)
    fix now' assume "\<not> keyExpired k now' c2"
    then have e': "\<not> ttlExpired (ttl c2) start now'"
      using f by (simp add: keyExpired_def)
    show "fst (getQueryData k now' c2) = x"
      by (simp add: getQueryData_def cacheGet_live [OF f e'])
        (simp add: c2 notifyObservers_def updateEntry_def)
  qed
  from same later show ?thesis by (simp add: c2_def)
qed

text \<open>C7 on a fresh client, read at once and one second later.\<close>

theorem setQueryData_getQueryData_witness:
  "fst (getQueryData postsList 0 (setQueryData postsList (Some ''X'') 0 newClient)) = Some ''X''
   \<and> \<not> keyExpired postsList 1000 (setQueryData postsList (Some ''X'') 0 newClient)
   \<and> fst (getQueryData postsList 1000 (setQueryData postsList (Some ''X'') 0 newClient))
       = Some ''X''"
proof -
  have live: "\<not> keyExpired postsList 1000 (setQueryData postsList (Some ''X'') 0 newClient)"
    unfolding setQueryData_def made_on_newClient
    by (simp add: keyExpired_def storeFind_def ttlExpired_def notifyObservers_def updateEntry_def
        newClient_fields)
  show ?thesis
    using setQueryData_getQueryData [of postsList 0 "Some ''X''" newClient] live by blast
qed

subsection \<open>Subscribing\<close>

text \<open>
  C8, as stated: with \<open>enabled\<close> not false, subscribing fetches at once if and only if
  the entry has never successfully fetched, also when its last fetch ended in status
  error. The code on \<open>failedFetch\<close>, whose only fetch ever was rejected and which holds
  no data: subscribing calls no query function and starts no task.
\<close>

theorem subscribe_after_error_no_fetch:
  "enabled (queryOptions postsList (Some (RetryCount 0)) None) \<noteq> Some False
   \<and> outcomes failedFetch = [(0, Threw boom)]
   \<and> map_option status (liveState postsList 10 failedFetch) = Some Error
   \<and> map_option dataUpdatedAt (liveState postsList 10 failedFetch) = Some 0
   \<and> calls (snd (subscribeToQuery (queryOptions postsList (Some (RetryCount 0)) None) 10 failedFetch))
       = calls failedFetch
   \<and> tasks (snd (subscribeToQuery (queryOptions postsList (Some (RetryCount 0)) None) 10 failedFetch))
       = tasks failedFetch"
proof -
  have g: "getQueryEntry postsList 10 failedFetch = (0, failedFetch)"
    using failedFetch_facts by (simp add: getQueryEntry_single)
  show ?thesis
    using failedFetch_facts
    by (simp add: liveState_def keyExpired_def entryState_def storeFind_def subscribeToQuery_def g
        updateEntry_def Let_def)
qed

text \<open>
  C8, amended. \<open>subscribeToQuery\<close> calls the query function at once exactly when
  \<open>enabled\<close> is not \<^verbatim>\<open>false\<close> and the status of the entry that the store returns
  is pending, which a missing or expired entry's is once made anew; the call is attempt 0
  of a new task. An entry in status error or success is not fetched.
\<close>

theorem subscribeToQuery_fetches_iff_pending:
  "calls (snd (subscribeToQuery opts now c)) =
     calls c @
       (if enabled opts \<noteq> Some False
           \<and> (case liveState (queryKey opts) now c of None \<Rightarrow> True | Some st \<Rightarrow> status st = Pending)
        then [(nextTask c, queryKey opts, 0)] else [])"
proof -
  obtain a c1 where g: "getQueryEntry (queryKey opts) now c = (a, c1)"
    by (cases "getQueryEntry (queryKey opts) now c")
  define c3 where "c3 = (case gcTimeout (heap c1 a) of
                     None \<Rightarrow> updateEntry a (\<lambda>e. e\<lparr>observers := observers e @ [(nextObserver c1, opts)]\<rparr>)
                              (c1\<lparr>nextObserver := Suc (nextObserver c1)\<rparr>)
                   | Some tm \<Rightarrow>
                       updateEntry a (\<lambda>e. e\<lparr>gcTimeout := None\<rparr>)
                         (clearTimer tm
                            (updateEntry a (\<lambda>e. e\<lparr>observers := observers e @ [(nextObserver c1, opts)]\<rparr>)
                               (c1\<lparr>nextObserver := Suc (nextObserver c1)\<rparr>))))"
  note u = subscribeToQuery_unfold [OF g c3_def]
  have st: "status (state (heap c1 a)) = Pending \<longleftrightarrow>
      (case liveState (queryKey opts) now c of None \<Rightarrow> True | Some st \<Rightarrow> status st = Pending)"
    using getQueryEntry_state [of "queryKey opts" now c] g
    by (simp add: initialState_def split: option.splits)
  show ?thesis
    by (simp add: u(1) st fetchQuery_calls u(3) u(4))
qed

text \<open>C8, amended, on a fresh client: the subscription makes the one call.\<close>

theorem subscribeToQuery_fetches_iff_pending_witness:
  "calls (snd (subscribeToQuery (queryOptions postsList None None) 0 newClient))
     = [(0, postsList, 0)]"
  using subscribeToQuery_fetches_iff_pending [of "queryOptions postsList None None" 0 newClient]
  by (simp add: liveState_def keyExpired_def entryState_def storeFind_def newClient_fields)

subsection \<open>Reading\<close>

text \<open>
  C9, as stated: after \<open>getQueryData\<close> the stored keys and every entry are exactly as
  before. The code on \<open>oneFetch\<close>, whose key was set at time 0 and whose fetch is in
  flight: read after the five minutes of the store's time-to-live, \<^verbatim>\<open>cache.get\<close>
  drops the key and hands the entry to \<open>cleanupQuery\<close>, so the store is empty and the
  signal of the fetch is aborted.
\<close>

theorem getQueryData_drops_expired:
  "storedKeys oneFetch = {getQueryKey postsList}
   \<and> \<not> aborted oneFetch 0
   \<and> fst (getQueryData postsList 300001 oneFetch) = None
   \<and> storedKeys (snd (getQueryData postsList 300001 oneFetch)) = {}
   \<and> aborted (snd (getQueryData postsList 300001 oneFetch)) 0"
proof -
  have f: "storeFind (cache oneFetch) (getQueryKey postsList) = Some (0, 0)"
    using oneFetch_facts by (simp add: storeFind_def)
  have e: "ttlExpired (ttl oneFetch) 0 300001"
    using oneFetch_facts by (simp add: ttlExpired_def)
  have d: "cache (cacheDelete (getQueryKey postsList) oneFetch) = []"
    "aborted (cacheDelete (getQueryKey postsList) oneFetch) 0"
    using oneFetch_facts
    by (simp_all add: cacheDelete_def storeFind_def storeRemove_def cleanupQuery_def
        abortSignal_def)
  show ?thesis
    using oneFetch_facts d
    by (simp add: getQueryData_def cacheGet_expired [OF f e] storedKeys_def)
qed

text \<open>
  C9, amended. \<open>getQueryData\<close> never makes an entry, never changes an entry object
  (so no entry's state), calls no query function and notifies nobody; it returns the data
  of the entry that the store returns for the key, and \<^verbatim>\<open>undefined\<close> for a key that
  is not stored or has expired. A key that is not stored leaves the client as it was. A
  stored key whose time-to-live has not passed keeps the stored keys, every key's entry,
  the abort flags and the timers (the key only becomes the most recently used). A stored
  key whose time-to-live has passed is deleted from the store with \<open>cleanupQuery\<close> run
  on its entry; every other key keeps its entry. \<open>setQueryData\<close>, \<open>fetchQuery\<close> and
  \<open>subscribeToQuery\<close>, in contrast, leave an entry stored under their key.
\<close>

theorem getQueryData_effects:
  "heap (snd (getQueryData k now c)) = heap c
   \<and> calls (snd (getQueryData k now c)) = calls c
   \<and> tasks (snd (getQueryData k now c)) = tasks c
   \<and> notifications (snd (getQueryData k now c)) = notifications c
   \<and> fst (getQueryData k now c) = (case liveState k now c of None \<Rightarrow> None | Some st \<Rightarrow> data st)
   \<and> storedKeys (snd (getQueryData k now c))
       = (if keyExpired k now c then storedKeys c - {getQueryKey k} else storedKeys c)
   \<and> (\<forall>k'. getQueryKey k' \<noteq> getQueryKey k
          \<longrightarrow> entryState k' (snd (getQueryData k now c)) = entryState k' c)
   \<and> (\<not> keyExpired k now c
        \<longrightarrow> entryState k (snd (getQueryData k now c)) = entryState k c
            \<and> aborted (snd (getQueryData k now c)) = aborted c
            \<and> timers (snd (getQueryData k now c)) = timers c)
   \<and> (keyExpired k now c \<longrightarrow> snd (getQueryData k now c) = cacheDelete (getQueryKey k) c)
   \<and> (getQueryKey k \<notin> storedKeys c \<longrightarrow> getQueryData k now c = (None, c))
   \<and> getQueryKey k \<in> storedKeys (setQueryData k d now c)
   \<and> getQueryKey (queryKey opts) \<in> storedKeys (snd (fetchQuery opts who now c))
   \<and> getQueryKey (queryKey opts) \<in> storedKeys (snd (subscribeToQuery opts now c))"
proof -
  have made: "getQueryKey k \<in> storedKeys (setQueryData k d now c)
     \<and> getQueryKey (queryKey opts) \<in> storedKeys (snd (fetchQuery opts who now c))
     \<and> getQueryKey (queryKey opts) \<in> storedKeys (snd (subscribeToQuery opts now c))"
    by (simp add: setQueryData_keys fetchQuery_keys subscribeToQuery_keys)
  show ?thesis
  proof (cases rule: cacheGet_cases [of c "getQueryKey k" now])
    case absent
    then show ?thesis
      using made storeFind_None_iff [of "cache c" "getQueryKey k"]
      by (simp add: getQueryData_def liveState_def keyExpired_def entryState_def storedKeys_def)
  next
    case (expired a start)
    have others: "\<forall>k'. getQueryKey k' \<noteq> getQueryKey k
          \<longrightarrow> entryState k' (cacheDelete (getQueryKey k) c) = entryState k' c"
      by (simp add: entryState_def cacheDelete_cache cacheDelete_frame storeFind_remove_other
          cong: option.case_cong)
    show ?thesis
      using made expired others storeFind_keys [OF expired(1)]
      by (simp add: getQueryData_def liveState_def keyExpired_def storedKeys_def
          cacheDelete_cache cacheDelete_frame storeRemove_keys)
  next
    case (live a start)
    have keys: "insert (getQueryKey k) (fst ` set (cache c) - {getQueryKey k}) = fst ` set (cache c)"
      using storeFind_keys [OF live(1)] by blast
    show ?thesis
      using made live keys storeFind_keys [OF live(1)]
      by (simp add: getQueryData_def liveState_def keyExpired_def entryState_def storedKeys_def
          storeRemove_keys storeFind_touch [OF live(1)] cong: option.case_cong)
  qed
qed

text \<open>
  C9, amended, on \<open>oneFetch\<close> within and after the time-to-live, and on a fresh
  client.
\<close>

theorem getQueryData_effects_witness:
  "\<not> keyExpired postsList 100 oneFetch
   \<and> entryState postsList (snd (getQueryData postsList 100 oneFetch)) = entryState postsList oneFetch
   \<and> storedKeys (snd (getQueryData postsList 100 oneFetch)) = storedKeys oneFetch
   \<and> aborted (snd (getQueryData postsList 100 oneFetch)) = aborted oneFetch
   \<and> getQueryKey (KeyArray [''posts'']) \<noteq> getQueryKey postsList
   \<and> entryState (KeyArray [''posts'']) (snd (getQueryData postsList 100 oneFetch))
       = entryState (KeyArray [''posts'']) oneFetch
   \<and> keyExpired postsList 300001 oneFetch
   \<and> snd (getQueryData postsList 300001 oneFetch) = cacheDelete (getQueryKey postsList) oneFetch
   \<and> getQueryKey postsList \<notin> storedKeys newClient
   \<and> getQueryData postsList 0 newClient = (None, newClient)"
proof -
  have live: "\<not> keyExpired postsList 100 oneFetch"
    using oneFetch_facts by (simp add: keyExpired_def storeFind_def ttlExpired_def)
  have dead: "keyExpired postsList 300001 oneFetch"
    using oneFetch_facts by (simp add: keyExpired_def storeFind_def ttlExpired_def)
  have none: "getQueryKey postsList \<notin> storedKeys newClient"
    by (simp add: storedKeys_def newClient_fields)
  note a = getQueryData_effects [of postsList 100 oneFetch]
  note b = getQueryData_effects [of postsList 300001 oneFetch]
  note c = getQueryData_effects [of postsList 0 newClient]
  show ?thesis
    using live dead none posts_keys a b c by simp
qed

subsection \<open>Derived flags of a result\<close>

text \<open>
  C10. In every result that \<open>buildQueryResult\<close> makes from an entry's state,
  \<open>isLoading\<close> holds exactly when the status is pending and the fetch status is
  fetching, \<open>isRefetching\<close> holds exactly when the fetch status is fetching and
  \<open>isLoading\<close> is false, the two are never both true, and their disjunction is
  \<open>isFetching\<close>. The result carries the state's status and fetch status unchanged.
\<close>

theorem buildQueryResult_flags:
  "isLoading (buildQueryResult now st opts)
     = (status (buildQueryResult now st opts) = Pending
        \<and> fetchStatus (buildQueryResult now st opts) = Fetching)
   \<and> isRefetching (buildQueryResult now st opts)
     = (fetchStatus (buildQueryResult now st opts) = Fetching
        \<and> \<not> isLoading (buildQueryResult now st opts))
   \<and> \<not> (isLoading (buildQueryResult now st opts) \<and> isRefetching (buildQueryResult now st opts))
   \<and> (isLoading (buildQueryResult now st opts) \<or> isRefetching (buildQueryResult now st opts))
     = isFetching (buildQueryResult now st opts)
   \<and> status (buildQueryResult now st opts) = status st
   \<and> fetchStatus (buildQueryResult now st opts) = fetchStatus st"
  by (auto simp: buildQueryResult_def Let_def)

end
